theory Spec2Isabelle
  imports Main
begin

section \<open>Board model\<close>

text \<open>
  The pieces and the board of \<^verbatim>\<open>ChessRules\<close> and of the game server. A piece is the
  object \<^verbatim>\<open>{type, color, id, hasMoved, row, col}\<close>; the board is the 8 by 8 array
  \<^verbatim>\<open>(ChessPiece | null)[][]\<close>, indexed \<^verbatim>\<open>board[row][col]\<close>, row 0 being Black's back rank.
  Coordinates are JavaScript numbers; the model takes them as integers.
\<close>

datatype color = White | Black

datatype ptype = Pawn | Rook | Knight | Bishop | Queen | King

record ChessPiece =
  ptype :: ptype
  color :: color
  pid :: string
  hasMoved :: bool
  prow :: int
  pcol :: int

text \<open>
  The board is a function from coordinates to cells. The array has rows and columns 0 to 7
  only: a read outside the columns of an existing row yields \<^verbatim>\<open>undefined\<close>, which is
  falsy (\<open>cell\<close> gives \<open>None\<close>) and different from \<^verbatim>\<open>null\<close> (\<open>notNull\<close> holds); a read
  in a row that does not exist raises a TypeError, which the rule functions never do when the
  square they start from is on the board (every call site passes the square of a piece found
  on the board, and destinations are bounds-checked before they are used as an index).
\<close>

type_synonym board = "int \<times> int \<Rightarrow> ChessPiece option"

definition onBoard :: "int \<Rightarrow> int \<Rightarrow> bool" where
  "onBoard r c = (0 \<le> r \<and> r < 8 \<and> 0 \<le> c \<and> c < 8)"

definition cell :: "board \<Rightarrow> int \<Rightarrow> int \<Rightarrow> ChessPiece option" where
  "cell b r c = (if onBoard r c then b (r, c) else None)"

definition notNull :: "board \<Rightarrow> int \<Rightarrow> int \<Rightarrow> bool" where
  "notNull b r c = (if onBoard r c then b (r, c) \<noteq> None else True)"

definition opponent :: "color \<Rightarrow> color" where
  "opponent k = (if k = White then Black else White)"

text \<open>The squares in the order of the nested loops \<^verbatim>\<open>for row 0..7, for col 0..7\<close>.\<close>

definition allSquares :: "(int \<times> int) list" where
  "allSquares = concat (map (\<lambda>r. map (\<lambda>c. (r, c)) [0..7]) [0..7])"

section \<open>ChessRules: attack predicates\<close>

text \<open>
  \<^verbatim>\<open>isPathClear\<close>: the loop starts one step after the origin and walks until it meets the
  destination; a non-null cell on the way blocks the path. The steps are the signs of the
  differences. Off the board the loop reads \<^verbatim>\<open>undefined\<close> (not null, so it stops with
  false) or raises; both are the value \<open>False\<close> here. The loop is entered with both steps
  zero only when origin and destination coincide, where it returns true at once; the guard
  on the steps makes the recursion total.
\<close>

function pathWalk :: "board \<Rightarrow> int \<Rightarrow> int \<Rightarrow> int \<Rightarrow> int \<Rightarrow> int \<Rightarrow> int \<Rightarrow> bool" where
  "pathWalk b currentRow currentCol toRow toCol rowStep colStep =
     (if currentRow = toRow \<and> currentCol = toCol then True
      else if \<not> onBoard currentRow currentCol \<or> (rowStep = 0 \<and> colStep = 0) then False
      else if b (currentRow, currentCol) \<noteq> None then False
      else pathWalk b (currentRow + rowStep) (currentCol + colStep) toRow toCol rowStep colStep)"
  by pat_completeness auto
termination
  by (relation "measure (\<lambda>(b, r, c, tr, tc, rs, cs).
        nat (if rs > 0 then 8 - r else if rs < 0 then r + 1
             else if cs > 0 then 8 - c else c + 1))")
     (auto simp: onBoard_def)

declare pathWalk.simps [simp del]

definition isPathClear :: "board \<Rightarrow> int \<Rightarrow> int \<Rightarrow> int \<Rightarrow> int \<Rightarrow> bool" where
  "isPathClear b fromRow fromCol toRow toCol =
     (let rowStep = (if toRow > fromRow then 1 else if toRow < fromRow then -1 else 0);
          colStep = (if toCol > fromCol then 1 else if toCol < fromCol then -1 else 0)
      in pathWalk b (fromRow + rowStep) (fromCol + colStep) toRow toCol rowStep colStep)"

definition canPawnAttackSquare :: "ChessPiece \<Rightarrow> int \<Rightarrow> int \<Rightarrow> int \<Rightarrow> int \<Rightarrow> bool" where
  "canPawnAttackSquare piece fromRow fromCol toRow toCol =
     (let direction = (if color piece = White then -1 else 1)
      in \<bar>toCol - fromCol\<bar> = 1 \<and> toRow = fromRow + direction)"

definition canRookAttackSquare :: "board \<Rightarrow> int \<Rightarrow> int \<Rightarrow> int \<Rightarrow> int \<Rightarrow> bool" where
  "canRookAttackSquare b fromRow fromCol toRow toCol =
     (if fromRow \<noteq> toRow \<and> fromCol \<noteq> toCol then False
      else isPathClear b fromRow fromCol toRow toCol)"

definition canKnightAttackSquare :: "int \<Rightarrow> int \<Rightarrow> int \<Rightarrow> int \<Rightarrow> bool" where
  "canKnightAttackSquare fromRow fromCol toRow toCol =
     (let rowDiff = \<bar>toRow - fromRow\<bar>; colDiff = \<bar>toCol - fromCol\<bar>
      in (rowDiff = 2 \<and> colDiff = 1) \<or> (rowDiff = 1 \<and> colDiff = 2))"

definition canBishopAttackSquare :: "board \<Rightarrow> int \<Rightarrow> int \<Rightarrow> int \<Rightarrow> int \<Rightarrow> bool" where
  "canBishopAttackSquare b fromRow fromCol toRow toCol =
     (if \<bar>toRow - fromRow\<bar> \<noteq> \<bar>toCol - fromCol\<bar> then False
      else isPathClear b fromRow fromCol toRow toCol)"

definition canQueenAttackSquare :: "board \<Rightarrow> int \<Rightarrow> int \<Rightarrow> int \<Rightarrow> int \<Rightarrow> bool" where
  "canQueenAttackSquare b fromRow fromCol toRow toCol =
     (let isRookMove = (fromRow = toRow \<or> fromCol = toCol);
          isBishopMove = (\<bar>toRow - fromRow\<bar> = \<bar>toCol - fromCol\<bar>)
      in if \<not> isRookMove \<and> \<not> isBishopMove then False
         else isPathClear b fromRow fromCol toRow toCol)"

definition canKingAttackSquare :: "int \<Rightarrow> int \<Rightarrow> int \<Rightarrow> int \<Rightarrow> bool" where
  "canKingAttackSquare fromRow fromCol toRow toCol =
     (let rowDiff = \<bar>toRow - fromRow\<bar>; colDiff = \<bar>toCol - fromCol\<bar>
      in rowDiff \<le> 1 \<and> colDiff \<le> 1)"

definition canPieceAttackSquare ::
  "board \<Rightarrow> ChessPiece \<Rightarrow> int \<Rightarrow> int \<Rightarrow> int \<Rightarrow> int \<Rightarrow> bool" where
  "canPieceAttackSquare b piece fromRow fromCol toRow toCol =
     (if fromRow = toRow \<and> fromCol = toCol then False
      else case ptype piece of
             Pawn \<Rightarrow> canPawnAttackSquare piece fromRow fromCol toRow toCol
           | Rook \<Rightarrow> canRookAttackSquare b fromRow fromCol toRow toCol
           | Knight \<Rightarrow> canKnightAttackSquare fromRow fromCol toRow toCol
           | Bishop \<Rightarrow> canBishopAttackSquare b fromRow fromCol toRow toCol
           | Queen \<Rightarrow> canQueenAttackSquare b fromRow fromCol toRow toCol
           | King \<Rightarrow> canKingAttackSquare fromRow fromCol toRow toCol)"

text \<open>
  \<^verbatim>\<open>isKingInCheck\<close>: the first king of the colour in scan order is the king looked at
  (the two loops break at the first hit); with no king the result is false. Then any
  opposing piece that can attack the king's square gives check.
\<close>

definition isKingOf :: "color \<Rightarrow> ChessPiece option \<Rightarrow> bool" where
  "isKingOf kingColor x =
     (case x of None \<Rightarrow> False | Some piece \<Rightarrow> ptype piece = King \<and> color piece = kingColor)"

definition findKing :: "board \<Rightarrow> color \<Rightarrow> (int \<times> int) option" where
  "findKing b kingColor = List.find (\<lambda>sq. isKingOf kingColor (b sq)) allSquares"

definition attacksFrom :: "board \<Rightarrow> color \<Rightarrow> int \<Rightarrow> int \<Rightarrow> int \<times> int \<Rightarrow> bool" where
  "attacksFrom b opponentColor kingRow kingCol sq =
     (case b sq of
        None \<Rightarrow> False
      | Some piece \<Rightarrow>
          if color piece = opponentColor
          then canPieceAttackSquare b piece (fst sq) (snd sq) kingRow kingCol
          else False)"

definition isKingInCheck :: "board \<Rightarrow> color \<Rightarrow> bool" where
  "isKingInCheck b kingColor =
     (case findKing b kingColor of
        None \<Rightarrow> False
      | Some (kingRow, kingCol) \<Rightarrow>
          (List.find (attacksFrom b (opponent kingColor) kingRow kingCol) allSquares \<noteq> None))"

section \<open>ChessRules: the attack map\<close>

text \<open>
  \<^verbatim>\<open>getAttackedSquares\<close> fills an 8 by 8 array of booleans, all false at first. The model
  keeps the list of the squares set to true; reading \<^verbatim>\<open>attacked[r][c]\<close> is membership
  (a column outside the array reads \<^verbatim>\<open>undefined\<close>, falsy, and is never in the list).
  Each loop of \<^verbatim>\<open>markRookAttacks\<close> and \<^verbatim>\<open>markBishopAttacks\<close> is a ray: it marks square
  after square in one direction while it stays on the board, and stops after the first
  occupied square, which it marks too.
\<close>

function ray :: "board \<Rightarrow> int \<Rightarrow> int \<Rightarrow> int \<Rightarrow> int \<Rightarrow> (int \<times> int) list" where
  "ray b r c dr dc =
     (if onBoard r c \<and> (dr \<noteq> 0 \<or> dc \<noteq> 0)
      then (r, c) # (if b (r, c) \<noteq> None then [] else ray b (r + dr) (c + dc) dr dc)
      else [])"
  by pat_completeness auto
termination
  by (relation "measure (\<lambda>(b, r, c, dr, dc).
        nat (if dr > 0 then 8 - r else if dr < 0 then r + 1
             else if dc > 0 then 8 - c else c + 1))")
     (auto simp: onBoard_def)

declare ray.simps [simp del]

definition markPawnAttacks :: "ChessPiece \<Rightarrow> int \<Rightarrow> int \<Rightarrow> (int \<times> int) list" where
  "markPawnAttacks piece fromRow fromCol =
     (let direction = (if color piece = White then -1 else 1) in
      (if fromCol > 0 \<and> onBoard (fromRow + direction) (fromCol - 1)
       then [(fromRow + direction, fromCol - 1)] else []) @
      (if fromCol < 7 \<and> onBoard (fromRow + direction) (fromCol + 1)
       then [(fromRow + direction, fromCol + 1)] else []))"

definition markRookAttacks :: "board \<Rightarrow> int \<Rightarrow> int \<Rightarrow> (int \<times> int) list" where
  "markRookAttacks b fromRow fromCol =
     ray b (fromRow - 1) fromCol (-1) 0 @ ray b (fromRow + 1) fromCol 1 0 @
     ray b fromRow (fromCol - 1) 0 (-1) @ ray b fromRow (fromCol + 1) 0 1"

definition knightMoves :: "(int \<times> int) list" where
  "knightMoves = [(-2, -1), (-2, 1), (-1, -2), (-1, 2), (1, -2), (1, 2), (2, -1), (2, 1)]"

definition markKnightAttacks :: "int \<Rightarrow> int \<Rightarrow> (int \<times> int) list" where
  "markKnightAttacks fromRow fromCol =
     filter (\<lambda>(toRow, toCol). onBoard toRow toCol)
       (map (\<lambda>(rowDiff, colDiff). (fromRow + rowDiff, fromCol + colDiff)) knightMoves)"

definition markBishopAttacks :: "board \<Rightarrow> int \<Rightarrow> int \<Rightarrow> (int \<times> int) list" where
  "markBishopAttacks b fromRow fromCol =
     ray b (fromRow - 1) (fromCol - 1) (-1) (-1) @ ray b (fromRow - 1) (fromCol + 1) (-1) 1 @
     ray b (fromRow + 1) (fromCol - 1) 1 (-1) @ ray b (fromRow + 1) (fromCol + 1) 1 1"

definition markQueenAttacks :: "board \<Rightarrow> int \<Rightarrow> int \<Rightarrow> (int \<times> int) list" where
  "markQueenAttacks b fromRow fromCol =
     markRookAttacks b fromRow fromCol @ markBishopAttacks b fromRow fromCol"

text \<open>The offsets of the loops \<^verbatim>\<open>rowDiff -1..1, colDiff -1..1\<close>, the pair (0, 0) skipped.\<close>

definition kingOffsets :: "(int \<times> int) list" where
  "kingOffsets = [(-1, -1), (-1, 0), (-1, 1), (0, -1), (0, 1), (1, -1), (1, 0), (1, 1)]"

definition markKingAttacks :: "int \<Rightarrow> int \<Rightarrow> (int \<times> int) list" where
  "markKingAttacks fromRow fromCol =
     filter (\<lambda>(toRow, toCol). onBoard toRow toCol)
       (map (\<lambda>(rowDiff, colDiff). (fromRow + rowDiff, fromCol + colDiff)) kingOffsets)"

definition markAttackedSquares ::
  "board \<Rightarrow> ChessPiece \<Rightarrow> int \<Rightarrow> int \<Rightarrow> (int \<times> int) list" where
  "markAttackedSquares b piece fromRow fromCol =
     (case ptype piece of
        Pawn \<Rightarrow> markPawnAttacks piece fromRow fromCol
      | Rook \<Rightarrow> markRookAttacks b fromRow fromCol
      | Knight \<Rightarrow> markKnightAttacks fromRow fromCol
      | Bishop \<Rightarrow> markBishopAttacks b fromRow fromCol
      | Queen \<Rightarrow> markQueenAttacks b fromRow fromCol
      | King \<Rightarrow> markKingAttacks fromRow fromCol)"

definition getAttackedSquares :: "board \<Rightarrow> color \<Rightarrow> (int \<times> int) list" where
  "getAttackedSquares b k =
     concat (map (\<lambda>sq. case b sq of
                          None \<Rightarrow> []
                        | Some piece \<Rightarrow>
                            if color piece = opponent k
                            then markAttackedSquares b piece (fst sq) (snd sq) else [])
                 allSquares)"

definition attackedAt :: "(int \<times> int) list \<Rightarrow> int \<Rightarrow> int \<Rightarrow> bool" where
  "attackedAt attacked r c = ((r, c) \<in> set attacked)"

section \<open>ChessRules: move legality\<close>

text \<open>
  \<^verbatim>\<open>simulateMove\<close> copies the board, writes the piece (with its new coordinates) on the
  destination and then null on the origin.
\<close>

definition simulateMove ::
  "board \<Rightarrow> int \<Rightarrow> int \<Rightarrow> int \<Rightarrow> int \<Rightarrow> ChessPiece \<Rightarrow> board" where
  "simulateMove b fromRow fromCol toRow toCol piece =
     (b((toRow, toCol) := Some (piece\<lparr>prow := toRow, pcol := toCol\<rparr>)))((fromRow, fromCol) := None)"

definition isValidPawnMove ::
  "board \<Rightarrow> ChessPiece \<Rightarrow> int \<Rightarrow> int \<Rightarrow> int \<Rightarrow> int \<Rightarrow> bool" where
  "isValidPawnMove b piece fromRow fromCol toRow toCol =
     (let direction = (if color piece = White then -1 else 1);
          startRow = (if color piece = White then 6 else 1)
      in if toCol = fromCol \<and> toRow = fromRow + direction \<and> cell b toRow toCol = None then True
         else if toCol = fromCol \<and> fromRow = startRow \<and> toRow = fromRow + 2 * direction \<and>
                 cell b (fromRow + direction) fromCol = None \<and> cell b toRow toCol = None then True
         else if \<bar>toCol - fromCol\<bar> = 1 \<and> toRow = fromRow + direction then
                (case cell b toRow toCol of
                   None \<Rightarrow> False
                 | Some targetPiece \<Rightarrow> color targetPiece \<noteq> color piece)
         else False)"

definition isValidRookMove :: "board \<Rightarrow> int \<Rightarrow> int \<Rightarrow> int \<Rightarrow> int \<Rightarrow> bool" where
  "isValidRookMove b fromRow fromCol toRow toCol =
     (if fromRow \<noteq> toRow \<and> fromCol \<noteq> toCol then False
      else isPathClear b fromRow fromCol toRow toCol)"

definition isValidKnightMove :: "int \<Rightarrow> int \<Rightarrow> int \<Rightarrow> int \<Rightarrow> bool" where
  "isValidKnightMove fromRow fromCol toRow toCol =
     (let rowDiff = \<bar>toRow - fromRow\<bar>; colDiff = \<bar>toCol - fromCol\<bar>
      in (rowDiff = 2 \<and> colDiff = 1) \<or> (rowDiff = 1 \<and> colDiff = 2))"

definition isValidBishopMove :: "board \<Rightarrow> int \<Rightarrow> int \<Rightarrow> int \<Rightarrow> int \<Rightarrow> bool" where
  "isValidBishopMove b fromRow fromCol toRow toCol =
     (if \<bar>toRow - fromRow\<bar> \<noteq> \<bar>toCol - fromCol\<bar> then False
      else isPathClear b fromRow fromCol toRow toCol)"

definition isValidQueenMove :: "board \<Rightarrow> int \<Rightarrow> int \<Rightarrow> int \<Rightarrow> int \<Rightarrow> bool" where
  "isValidQueenMove b fromRow fromCol toRow toCol =
     (let isRookMove = (fromRow = toRow \<or> fromCol = toCol);
          isBishopMove = (\<bar>toRow - fromRow\<bar> = \<bar>toCol - fromCol\<bar>)
      in if \<not> isRookMove \<and> \<not> isBishopMove then False
         else isPathClear b fromRow fromCol toRow toCol)"

text \<open>
  \<^verbatim>\<open>isValidCastling\<close>. The rook is looked up in column 7 or 0 of the king's row. The first
  loop runs over the columns strictly between king and rook; the second over the columns
  from the king's up to, not including, the destination, in steps towards it; the
  destination is tested last.
\<close>

definition transitCols :: "int \<Rightarrow> int \<Rightarrow> int list" where
  "transitCols fromCol toCol =
     (if toCol > fromCol then [fromCol..toCol - 1] else rev [toCol + 1..fromCol])"

definition isValidCastling :: "board \<Rightarrow> ChessPiece \<Rightarrow> int \<Rightarrow> int \<Rightarrow> int \<Rightarrow> bool" where
  "isValidCastling b king fromRow fromCol toCol =
     (if isKingInCheck b (color king) then False
      else
        let isKingside = (toCol > fromCol);
            rookCol = (if isKingside then 7 else 0)
        in case cell b fromRow rookCol of
             None \<Rightarrow> False
           | Some rook \<Rightarrow>
               if ptype rook \<noteq> Rook \<or> color rook \<noteq> color king \<or> hasMoved rook then False
               else if list_ex (\<lambda>c. notNull b fromRow c)
                         [min fromCol rookCol + 1..max fromCol rookCol - 1] then False
               else
                 let attackedSquares = getAttackedSquares b (color king)
                 in if list_ex (\<lambda>c. attackedAt attackedSquares fromRow c)
                         (transitCols fromCol toCol) then False
                    else if attackedAt attackedSquares fromRow toCol then False
                    else True)"

definition isValidKingMove ::
  "board \<Rightarrow> ChessPiece \<Rightarrow> int \<Rightarrow> int \<Rightarrow> int \<Rightarrow> int \<Rightarrow> bool" where
  "isValidKingMove b piece fromRow fromCol toRow toCol =
     (let rowDiff = \<bar>toRow - fromRow\<bar>; colDiff = \<bar>toCol - fromCol\<bar>
      in if rowDiff \<le> 1 \<and> colDiff \<le> 1 then
           (if (case cell b toRow toCol of
                  None \<Rightarrow> False
                | Some targetPiece \<Rightarrow> color targetPiece = color piece) then False
            else if attackedAt (getAttackedSquares b (color piece)) toRow toCol then False
            else \<not> isKingInCheck (simulateMove b fromRow fromCol toRow toCol piece) (color piece))
         else if rowDiff = 0 \<and> colDiff = 2 \<and> \<not> hasMoved piece then
           isValidCastling b piece fromRow fromCol toCol
         else False)"

definition isValidMove ::
  "board \<Rightarrow> ChessPiece \<Rightarrow> int \<Rightarrow> int \<Rightarrow> int \<Rightarrow> int \<Rightarrow> bool" where
  "isValidMove b piece fromRow fromCol toRow toCol =
     (if fromRow = toRow \<and> fromCol = toCol then False
      else if toRow < 0 \<or> toRow > 7 \<or> toCol < 0 \<or> toCol > 7 then False
      else if (case b (toRow, toCol) of
                 None \<Rightarrow> False
               | Some targetPiece \<Rightarrow> color targetPiece = color piece) then False
      else if \<not> (case ptype piece of
                   Pawn \<Rightarrow> isValidPawnMove b piece fromRow fromCol toRow toCol
                 | Rook \<Rightarrow> isValidRookMove b fromRow fromCol toRow toCol
                 | Knight \<Rightarrow> isValidKnightMove fromRow fromCol toRow toCol
                 | Bishop \<Rightarrow> isValidBishopMove b fromRow fromCol toRow toCol
                 | Queen \<Rightarrow> isValidQueenMove b fromRow fromCol toRow toCol
                 | King \<Rightarrow> isValidKingMove b piece fromRow fromCol toRow toCol) then False
      else if isKingInCheck (simulateMove b fromRow fromCol toRow toCol piece) (color piece)
           then False
      else True)"

section \<open>ChessRules: enumeration and terminal positions\<close>

definition kingStepOk :: "board \<Rightarrow> ChessPiece \<Rightarrow> int \<Rightarrow> int \<Rightarrow> int \<times> int \<Rightarrow> bool" where
  "kingStepOk b king r c sq =
     (case sq of (toRow, toCol) \<Rightarrow>
        if toRow < 0 \<or> toRow \<ge> 8 \<or> toCol < 0 \<or> toCol \<ge> 8 then False
        else if (case b (toRow, toCol) of
                   None \<Rightarrow> False
                 | Some targetPiece \<Rightarrow> color targetPiece = color king) then False
        else if attackedAt (getAttackedSquares b (color king)) toRow toCol then False
        else \<not> isKingInCheck (simulateMove b r c toRow toCol king) (color king))"

definition getKingValidMoves ::
  "board \<Rightarrow> ChessPiece \<Rightarrow> int \<Rightarrow> int \<Rightarrow> (int \<times> int) list" where
  "getKingValidMoves b king r c =
     filter (kingStepOk b king r c)
       (map (\<lambda>(rowDiff, colDiff). (r + rowDiff, c + colDiff)) kingOffsets) @
     (if \<not> hasMoved king \<and> \<not> isKingInCheck b (color king)
      then (if isValidCastling b king r c (c + 2) then [(r, c + 2)] else []) @
           (if isValidCastling b king r c (c - 2) then [(r, c - 2)] else [])
      else [])"

definition getValidMoves :: "board \<Rightarrow> ChessPiece \<Rightarrow> int \<Rightarrow> int \<Rightarrow> (int \<times> int) list" where
  "getValidMoves b piece r c =
     (if ptype piece = King then getKingValidMoves b piece r c
      else filter (\<lambda>(toRow, toCol). isValidMove b piece r c toRow toCol) allSquares)"

text \<open>
  \<^verbatim>\<open>isCheckmate\<close> and \<^verbatim>\<open>isStalemate\<close> scan the board and return false at the first
  piece of the colour that has a valid move.
\<close>

definition canMoveFrom :: "board \<Rightarrow> color \<Rightarrow> int \<times> int \<Rightarrow> bool" where
  "canMoveFrom b k sq =
     (case b sq of
        None \<Rightarrow> False
      | Some piece \<Rightarrow>
          if color piece = k then getValidMoves b piece (fst sq) (snd sq) \<noteq> [] else False)"

definition hasAnyMove :: "board \<Rightarrow> color \<Rightarrow> bool" where
  "hasAnyMove b k = (List.find (canMoveFrom b k) allSquares \<noteq> None)"

definition isCheckmate :: "board \<Rightarrow> color \<Rightarrow> bool" where
  "isCheckmate b k = (if \<not> isKingInCheck b k then False else \<not> hasAnyMove b k)"

definition isStalemate :: "board \<Rightarrow> color \<Rightarrow> bool" where
  "isStalemate b k = (if isKingInCheck b k then False else \<not> hasAnyMove b k)"

definition canPromotePawn :: "ChessPiece \<Rightarrow> int \<Rightarrow> bool" where
  "canPromotePawn piece toRow =
     (if ptype piece \<noteq> Pawn then False
      else (color piece = White \<and> toRow = 0) \<or> (color piece = Black \<and> toRow = 7))"

section \<open>The game server: session state\<close>

text \<open>
  \<^verbatim>\<open>GameState\<close> as declared in the server's models (the players are kept by their ids;
  the optional fields are options). \<^verbatim>\<open>enPassantTarget\<close> is declared "for en passant" and
  never written by the server.
\<close>

datatype gstatus = Waiting | Playing | Check | Checkmate | Stalemate | Draw | Finished

record CastlingRights =
  whiteKingside :: bool
  whiteQueenside :: bool
  blackKingside :: bool
  blackQueenside :: bool

record LastMove =
  lmFrom :: "int \<times> int"
  lmTo :: "int \<times> int"
  lmPiece :: ChessPiece
  lmPlayerId :: string
  lmTimestamp :: string
  lmPromotion :: "ptype option"
  isCastle :: "bool option"
  isEnPassant :: "bool option"

record GameState =
  gid :: string
  players :: "string list"
  board :: board
  currentTurn :: color
  status :: gstatus
  winner :: "color option"
  check :: "bool option"
  checkmate :: "bool option"
  stalemate :: "bool option"
  enPassantTarget :: "(int \<times> int) option"
  castlingRights :: CastlingRights
  halfMoveClock :: int
  fullMoveNumber :: int
  lastMove :: "LastMove option"

definition colorName :: "color \<Rightarrow> string" where
  "colorName k = (if k = White then ''white'' else ''black'')"

definition typeName :: "ptype \<Rightarrow> string" where
  "typeName t = (case t of Pawn \<Rightarrow> ''pawn'' | Rook \<Rightarrow> ''rook'' | Knight \<Rightarrow> ''knight''
                  | Bishop \<Rightarrow> ''bishop'' | Queen \<Rightarrow> ''queen'' | King \<Rightarrow> ''king'')"

text \<open>
  The ids of the initial pieces are made of colour, type and column, as in
  \<^verbatim>\<open>black_rook_0\<close>; the columns are 0 to 7.
\<close>

definition colName :: "int \<Rightarrow> string" where
  "colName c = [''01234567'' ! nat c]"

definition newPiece :: "ptype \<Rightarrow> color \<Rightarrow> int \<Rightarrow> int \<Rightarrow> ChessPiece" where
  "newPiece t k r c =
     \<lparr>ptype = t, color = k, pid = colorName k @ ''_'' @ typeName t @ ''_'' @ colName c,
      hasMoved = False, prow = r, pcol = c\<rparr>"

definition pieceOrder :: "ptype list" where
  "pieceOrder = [Rook, Knight, Bishop, Queen, King, Bishop, Knight, Rook]"

definition backRank :: "color \<Rightarrow> int \<Rightarrow> board \<Rightarrow> board" where
  "backRank k r b0 = foldl (\<lambda>b (t, c). b((r, c) := Some (newPiece t k r c))) b0 (zip pieceOrder [0..7])"

definition pawnRow :: "color \<Rightarrow> int \<Rightarrow> board \<Rightarrow> board" where
  "pawnRow k r b0 = foldl (\<lambda>b c. b((r, c) := Some (newPiece Pawn k r c))) b0 [0..7]"

definition createInitialBoard :: board where
  "createInitialBoard =
     backRank White 7 (pawnRow White 6 (pawnRow Black 1 (backRank Black 0 (\<lambda>sq. None))))"

definition createGame :: "string \<Rightarrow> GameState" where
  "createGame gameId =
     \<lparr>gid = gameId, players = [], board = createInitialBoard, currentTurn = White,
      status = Waiting, winner = None, check = None, checkmate = None, stalemate = None,
      enPassantTarget = None,
      castlingRights = \<lparr>whiteKingside = True, whiteQueenside = True,
                        blackKingside = True, blackQueenside = True\<rparr>,
      halfMoveClock = 0, fullMoveNumber = 1, lastMove = None\<rparr>"

section \<open>The game server: status\<close>

definition updateGameStatus :: "GameState \<Rightarrow> GameState" where
  "updateGameStatus game =
     (let whiteInCheck = isKingInCheck (board game) White;
          blackInCheck = isKingInCheck (board game) Black;
          whiteCheckmate = isCheckmate (board game) White;
          blackCheckmate = isCheckmate (board game) Black;
          whiteStalemate = isStalemate (board game) White;
          blackStalemate = isStalemate (board game) Black;
          game1 =
            (if whiteCheckmate then
               game\<lparr>status := Checkmate, winner := Some Black, checkmate := Some True,
                    check := Some False, stalemate := Some False\<rparr>
             else if blackCheckmate then
               game\<lparr>status := Checkmate, winner := Some White, checkmate := Some True,
                    check := Some False, stalemate := Some False\<rparr>
             else if whiteStalemate \<or> blackStalemate then
               game\<lparr>status := Stalemate, stalemate := Some True, check := Some False,
                    checkmate := Some False, winner := None\<rparr>
             else if whiteInCheck \<and> currentTurn game = White then
               game\<lparr>status := Check, check := Some True, checkmate := Some False,
                    stalemate := Some False\<rparr>
             else if blackInCheck \<and> currentTurn game = Black then
               game\<lparr>status := Check, check := Some True, checkmate := Some False,
                    stalemate := Some False\<rparr>
             else
               game\<lparr>status := Playing, check := Some False, checkmate := Some False,
                    stalemate := Some False, winner := None\<rparr>)
      in if halfMoveClock game1 \<ge> 100 then game1\<lparr>status := Draw\<rparr> else game1)"

section \<open>The game server: moves\<close>

text \<open>
  The payload of a \<^verbatim>\<open>move\<close> message: the two squares, the piece object as the client
  sent it, the optional promotion choice and the sender. \<open>now\<close> is the reading of the
  clock taken while the message is handled (\<^verbatim>\<open>Date.now()\<close>), as text.
\<close>

record MovePayload =
  from_row :: int
  from_col :: int
  to_row :: int
  to_col :: int
  mpiece :: ChessPiece
  promotion :: "ptype option"
  playerId :: string
  now :: string

text \<open>
  What \<^verbatim>\<open>handleMove\<close> does with a request: it returns early (with or without an error
  message to the player), an index into a row that does not exist raises a TypeError
  that the message handler of the socket catches, or the move is applied.
\<close>

datatype outcome =
  Accepted | GameNotPlaying | NotYourTurn | NoPieceAtFrom | PieceMismatch | InvalidMove
  | TypeErrorRaised

definition handleCastling :: "GameState \<Rightarrow> int \<times> int \<Rightarrow> int \<times> int \<Rightarrow> GameState" where
  "handleCastling game frm to =
     (let isKingside = (snd to > snd frm);
          rookFromCol = (if isKingside then 7 else 0);
          rookToCol = (if isKingside then snd to - 1 else snd to + 1)
      in case cell (board game) (fst frm) rookFromCol of
           None \<Rightarrow> game
         | Some rook \<Rightarrow>
             if ptype rook = Rook then
               game\<lparr>board :=
                      ((board game)((fst frm, rookToCol) :=
                          Some (rook\<lparr>prow := fst frm, pcol := rookToCol, hasMoved := True\<rparr>)))
                        ((fst frm, rookFromCol) := None),
                    lastMove := map_option (\<lambda>lm. lm\<lparr>isCastle := Some True\<rparr>) (lastMove game)\<rparr>
             else game)"

definition updateCastlingRights :: "GameState \<Rightarrow> ChessPiece \<Rightarrow> int \<times> int \<Rightarrow> GameState" where
  "updateCastlingRights game piece frm =
     (let cr = castlingRights game in
      if ptype piece = King then
        (if color piece = White
         then game\<lparr>castlingRights := cr\<lparr>whiteKingside := False, whiteQueenside := False\<rparr>\<rparr>
         else game\<lparr>castlingRights := cr\<lparr>blackKingside := False, blackQueenside := False\<rparr>\<rparr>)
      else if ptype piece = Rook then
        (if color piece = White then
           (let cr1 = (if snd frm = 0 \<and> whiteQueenside cr then cr\<lparr>whiteQueenside := False\<rparr> else cr);
                cr2 = (if snd frm = 7 \<and> whiteKingside cr1 then cr1\<lparr>whiteKingside := False\<rparr> else cr1)
            in game\<lparr>castlingRights := cr2\<rparr>)
         else
           (let cr1 = (if snd frm = 0 \<and> blackQueenside cr then cr\<lparr>blackQueenside := False\<rparr> else cr);
                cr2 = (if snd frm = 7 \<and> blackKingside cr1 then cr1\<lparr>blackKingside := False\<rparr> else cr1)
            in game\<lparr>castlingRights := cr2\<rparr>))
      else game)"

text \<open>
  The special moves, in the order of the \<^verbatim>\<open>if / else if\<close> chain: castling, en passant,
  promotion. The result is the game and the piece object (promotion rewrites its type and
  id); \<open>None\<close> is the TypeError of the en passant branch when the row of the captured
  pawn does not exist.
\<close>

definition specialMoves :: "GameState \<Rightarrow> MovePayload \<Rightarrow> (GameState \<times> ChessPiece) option" where
  "specialMoves game m =
     (let piece = mpiece m; frm = (from_row m, from_col m); to = (to_row m, to_col m) in
      if ptype piece = King \<and> \<bar>to_col m - from_col m\<bar> = 2 then
        Some (handleCastling game frm to, piece)
      else if ptype piece = Pawn \<and> from_col m \<noteq> to_col m \<and>
              cell (board game) (to_row m) (to_col m) = None then
        (let capturedPawnRow = (if color piece = White then to_row m + 1 else to_row m - 1)
         in if 0 \<le> capturedPawnRow \<and> capturedPawnRow < 8
            then Some (game\<lparr>board := (board game)((capturedPawnRow, to_col m) := None)\<rparr>, piece)
            else None)
      else if ptype piece = Pawn \<and> canPromotePawn piece (to_row m) then
        (let promotionType = (case promotion m of None \<Rightarrow> Queen | Some t \<Rightarrow> t)
         in Some (game\<lparr>lastMove :=
                         map_option (\<lambda>lm. lm\<lparr>lmPromotion := Some promotionType\<rparr>) (lastMove game)\<rparr>,
                  piece\<lparr>ptype := promotionType,
                        pid := colorName (color piece) @ ''_'' @ typeName promotionType @
                               ''_promoted_'' @ now m\<rparr>))
      else Some (game, piece))"

text \<open>
  The rest of an accepted move: the piece takes its new coordinates and is marked moved,
  the castling rights are updated, the board is written (destination, then origin), the
  half-move clock and the full-move number are updated, the turn changes, the status is
  recomputed and the move is recorded.
\<close>

definition applyMove :: "GameState \<Rightarrow> MovePayload \<Rightarrow> ChessPiece \<Rightarrow> GameState" where
  "applyMove game m piece0 =
     (let frm = (from_row m, from_col m); to = (to_row m, to_col m);
          piece = piece0\<lparr>prow := to_row m, pcol := to_col m, hasMoved := True\<rparr>;
          game1 = updateCastlingRights game piece frm;
          game2 = game1\<lparr>board := ((board game1)(to := Some piece))(frm := None)\<rparr>;
          game3 = (if ptype piece = Pawn \<or> cell (board game2) (to_row m) (to_col m) \<noteq> None
                   then game2\<lparr>halfMoveClock := 0\<rparr>
                   else game2\<lparr>halfMoveClock := halfMoveClock game2 + 1\<rparr>);
          game4 = (if currentTurn game3 = Black
                   then game3\<lparr>fullMoveNumber := fullMoveNumber game3 + 1\<rparr> else game3);
          game5 = game4\<lparr>currentTurn := (if currentTurn game4 = White then Black else White)\<rparr>;
          game6 = updateGameStatus game5
      in game6\<lparr>lastMove := Some \<lparr>lmFrom = frm, lmTo = to, lmPiece = piece,
                                  lmPlayerId = playerId m, lmTimestamp = now m,
                                  lmPromotion = promotion m, isCastle = None,
                                  isEnPassant = None\<rparr>\<rparr>)"

text \<open>
  \<^verbatim>\<open>handleMove\<close> on the game found for the message. The result is what happened and the
  state of the game afterwards. When the move is invalid the server only computes
  diagnostics for its log and for the error message; of these the read
  \<^verbatim>\<open>game.board[to.row][to.col]\<close> raises when the row does not exist.
\<close>

definition handleMove :: "GameState \<Rightarrow> MovePayload \<Rightarrow> outcome \<times> GameState" where
  "handleMove game m =
     (if status game \<noteq> Playing then (GameNotPlaying, game)
      else if color (mpiece m) \<noteq> currentTurn game then (NotYourTurn, game)
      else if from_row m < 0 \<or> from_row m > 7 then (TypeErrorRaised, game)
      else case cell (board game) (from_row m) (from_col m) of
             None \<Rightarrow> (NoPieceAtFrom, game)
           | Some actualPiece \<Rightarrow>
               if pid actualPiece \<noteq> pid (mpiece m) then (PieceMismatch, game)
               else if \<not> isValidMove (board game) (mpiece m) (from_row m) (from_col m)
                            (to_row m) (to_col m) then
                 (if to_row m < 0 \<or> to_row m > 7 then (TypeErrorRaised, game)
                  else (InvalidMove, game))
               else (case specialMoves game m of
                       None \<Rightarrow> (TypeErrorRaised, game)
                     | Some (game1, piece) \<Rightarrow> (Accepted, applyMove game1 m piece)))"

text \<open>
  \<^verbatim>\<open>handlePromotion\<close>: a pawn on the given square, whatever its rank and whoever is to
  move, takes the requested type and a new id; the status is then recomputed. On any other
  square nothing changes (a row that does not exist raises before anything is written).
\<close>

definition handlePromotion :: "GameState \<Rightarrow> int \<Rightarrow> int \<Rightarrow> ptype \<Rightarrow> string \<Rightarrow> GameState" where
  "handlePromotion game r c promotionType stamp =
     (case cell (board game) r c of
        None \<Rightarrow> game
      | Some piece \<Rightarrow>
          if ptype piece = Pawn then
            updateGameStatus
              (game\<lparr>board := (board game)((r, c) :=
                       Some (piece\<lparr>ptype := promotionType,
                                   pid := colorName (color piece) @ ''_'' @
                                          typeName promotionType @ ''_promoted_'' @ stamp\<rparr>))\<rparr>)
          else game)"

text \<open>
  \<^verbatim>\<open>handleJoin\<close>, as far as the session goes: a full game refuses the player;
  otherwise the player is added and the status is \<^verbatim>\<open>playing\<close> once two players are
  in, \<^verbatim>\<open>waiting\<close> before. The id of the new player is made from the clock and a
  random number; it is an argument here.
\<close>

definition handleJoin :: "GameState \<Rightarrow> string \<Rightarrow> GameState" where
  "handleJoin game newPlayerId =
     (if length (players game) \<ge> 2 then game
      else game\<lparr>players := players game @ [newPlayerId],
                status := (if length (players game @ [newPlayerId]) = 2
                           then Playing else Waiting)\<rparr>)"

section \<open>Concrete positions\<close>

text \<open>
  Small positions on which the functions above are evaluated. \<open>place\<close> puts every piece
  of a list on the square its own coordinates name; \<open>sessionOn\<close> is a session with two
  players on a given board; \<open>request\<close> is the move message a client sends for a piece it
  sees on the board.
\<close>

definition pieceAt :: "ptype \<Rightarrow> color \<Rightarrow> string \<Rightarrow> bool \<Rightarrow> int \<Rightarrow> int \<Rightarrow> ChessPiece" where
  "pieceAt t k i moved r c =
     \<lparr>ptype = t, color = k, pid = i, hasMoved = moved, prow = r, pcol = c\<rparr>"

definition place :: "ChessPiece list \<Rightarrow> board" where
  "place ps = foldr (\<lambda>p b. b((prow p, pcol p) := Some p)) ps (\<lambda>sq. None)"

definition sessionOn :: "board \<Rightarrow> color \<Rightarrow> gstatus \<Rightarrow> int \<Rightarrow> GameState" where
  "sessionOn b turn st clock =
     (createGame ''default-game'')
       \<lparr>players := [''p1'', ''p2''], board := b, currentTurn := turn, status := st,
        halfMoveClock := clock\<rparr>"

definition request :: "ChessPiece \<Rightarrow> int \<Rightarrow> int \<Rightarrow> MovePayload" where
  "request p toRow toCol =
     \<lparr>from_row = prow p, from_col = pcol p, to_row = toRow, to_col = toCol, mpiece = p,
      promotion = None, playerId = ''p1'', now = ''0''\<rparr>"

text \<open>
  White king e1, Black king e8, a Black rook on a2; Black to move, the clock at 7. The rook
  goes to a1 and gives check; the White king then asks to step to e2.
\<close>

definition blackRook :: ChessPiece where
  "blackRook = pieceAt Rook Black ''br'' True 6 0"

definition rookBoard :: board where
  "rookBoard = place [pieceAt King White ''wk'' True 7 4, pieceAt King Black ''bk'' True 0 4,
                      blackRook]"

definition rookGame :: GameState where
  "rookGame = sessionOn rookBoard Black Playing 7"

definition rookMove :: MovePayload where
  "rookMove = request blackRook 7 0"

definition rookSlip :: MovePayload where
  "rookSlip = request blackRook 5 1"

definition checkBoard :: board where
  "checkBoard = simulateMove rookBoard 6 0 7 0 (blackRook\<lparr>hasMoved := True\<rparr>)"

definition kingReply :: MovePayload where
  "kingReply = request (pieceAt King White ''wk'' True 7 4) 6 4"

text \<open>
  A White pawn on e5 and a Black pawn still on d7; Black to move. After d7-d5 the
  White pawn asks for the en passant capture e5xd6.
\<close>

definition blackPawn :: ChessPiece where
  "blackPawn = pieceAt Pawn Black ''bp'' False 1 3"

definition whitePawn :: ChessPiece where
  "whitePawn = pieceAt Pawn White ''wp'' True 3 4"

definition epBoard :: board where
  "epBoard = place [pieceAt King White ''wk'' True 7 4, pieceAt King Black ''bk'' True 0 4,
                    whitePawn, blackPawn]"

definition epGame :: GameState where
  "epGame = sessionOn epBoard Black Playing 0"

definition epAdvance :: MovePayload where
  "epAdvance = request blackPawn 3 3"

definition epBoardAfter :: board where
  "epBoardAfter = simulateMove epBoard 1 3 3 3 (blackPawn\<lparr>hasMoved := True\<rparr>)"

definition epCapture :: MovePayload where
  "epCapture = request whitePawn 2 3"

text \<open>
  White: king a1 and a pawn on h2; Black: queen b3, pawn h4, king e8; White to move.
  After h2-h3 no White piece can move, and White is not in check.
\<close>

definition hPawn :: ChessPiece where
  "hPawn = pieceAt Pawn White ''wp'' False 6 7"

definition staleBoard :: board where
  "staleBoard = place [pieceAt King White ''wk'' True 7 0, hPawn,
                       pieceAt Queen Black ''bq'' True 5 1, pieceAt Pawn Black ''bp'' True 4 7,
                       pieceAt King Black ''bk'' True 0 4]"

definition staleGame :: GameState where
  "staleGame = sessionOn staleBoard White Playing 0"

definition staleMove :: MovePayload where
  "staleMove = request hPawn 5 7"

definition staleBoardAfter :: board where
  "staleBoardAfter = simulateMove staleBoard 6 7 5 7 (hPawn\<lparr>hasMoved := True\<rparr>)"

text \<open>Black's answer in that position: the queen from b3 to b2.\<close>

definition queenReply :: MovePayload where
  "queenReply = request (pieceAt Queen Black ''bq'' True 5 1) 6 1"

text \<open>White king e1 and rook h1, neither has moved; Black king e8.\<close>

definition castleKing :: ChessPiece where
  "castleKing = pieceAt King White ''wk'' False 7 4"

definition castleBoard :: board where
  "castleBoard = place [castleKing, pieceAt Rook White ''wr'' False 7 7,
                        pieceAt King Black ''bk'' True 0 4]"

text \<open>No White king: a White pawn on h3 blocked by a Black pawn on h4, Black king e8.\<close>

definition noKingBoard :: board where
  "noKingBoard = place [pieceAt Pawn White ''wp'' True 5 7, pieceAt Pawn Black ''bp'' True 4 7,
                        pieceAt King Black ''bk'' True 0 4]"

text \<open>
  A game created by its first player's \<^verbatim>\<open>join\<close>, which then receives the messages
  \<^verbatim>\<open>promotion\<close> for g2 (to king) and for h2 (to rook): both pawns change type where
  they stand and keep \<^verbatim>\<open>hasMoved = false\<close>.
\<close>

definition promotedKing :: ChessPiece where
  "promotedKing = (newPiece Pawn White 6 6)\<lparr>ptype := King, pid := ''white_king_promoted_1''\<rparr>"

definition promotedRook :: ChessPiece where
  "promotedRook = (newPiece Pawn White 6 7)\<lparr>ptype := Rook, pid := ''white_rook_promoted_2''\<rparr>"

definition promoGame :: GameState where
  "promoGame =
     handlePromotion
       (handlePromotion (handleJoin (createGame ''default-game'') ''p1'') 6 6 King ''1'')
       6 7 Rook ''2''"

definition promoBoard :: board where
  "promoBoard = (createInitialBoard((6, 6) := Some promotedKing))((6, 7) := Some promotedRook)"

text \<open>
  A game created by its first player's \<^verbatim>\<open>join\<close>, in which the pawn e2 is promoted
  to a knight where it stands, the second player joins, White plays that knight to d4, and
  then the pawns e7, g2 and h2 are promoted where they stand to queen, king and rook. The
  queen on e7 now attacks the king on e1 along the open file.
\<close>

definition e2Knight :: ChessPiece where
  "e2Knight = (newPiece Pawn White 6 4)\<lparr>ptype := Knight, pid := ''white_knight_promoted_0''\<rparr>"

definition e7Queen :: ChessPiece where
  "e7Queen = (newPiece Pawn Black 1 4)\<lparr>ptype := Queen, pid := ''black_queen_promoted_3''\<rparr>"

definition knightGame :: GameState where
  "knightGame =
     handleJoin (handlePromotion (handleJoin (createGame ''default-game'') ''p1'') 6 4 Knight ''0'')
       ''p2''"

definition knightBoard :: board where
  "knightBoard = createInitialBoard((6, 4) := Some e2Knight)"

definition knightMove :: MovePayload where
  "knightMove = request e2Knight 4 3"

definition twoKingGame :: GameState where
  "twoKingGame =
     handlePromotion
       (handlePromotion
          (handlePromotion (snd (handleMove knightGame knightMove)) 1 4 Queen ''3'')
          6 6 King ''1'')
       6 7 Rook ''2''"

definition twoKingBoard :: board where
  "twoKingBoard =
     (((simulateMove knightBoard 6 4 4 3 (e2Knight\<lparr>hasMoved := True\<rparr>))
         ((1, 4) := Some e7Queen))((6, 6) := Some promotedKing))((6, 7) := Some promotedRook)"

section \<open>Auxiliary facts\<close>

lemma in_allSquares: "(r, c) \<in> set allSquares \<longleftrightarrow> onBoard r c"
  unfolding allSquares_def onBoard_def by (auto simp: image_iff)

lemma isValidMove_dest:
  assumes "isValidMove b p fr fc tr tc"
  shows "onBoard tr tc" and "(fr, fc) \<noteq> (tr, tc)"
  using assms unfolding isValidMove_def onBoard_def by (auto split: if_splits)

lemma findKing_None:
  "findKing b k = None \<longleftrightarrow> (\<forall>r c. onBoard r c \<longrightarrow> \<not> isKingOf k (b (r, c)))"
  unfolding findKing_def find_None_iff by (auto simp: in_allSquares)

lemma isKingOf_iff:
  "isKingOf k x \<longleftrightarrow> (\<exists>p. x = Some p \<and> ptype p = King \<and> color p = k)"
  unfolding isKingOf_def by (auto split: option.splits)

lemma canMoveFrom_iff:
  "canMoveFrom b k (r, c) \<longleftrightarrow>
     (\<exists>p. b (r, c) = Some p \<and> color p = k \<and> getValidMoves b p r c \<noteq> [])"
  unfolding canMoveFrom_def by (auto split: option.splits)

lemma hasAnyMove_iff:
  "hasAnyMove b k \<longleftrightarrow>
     (\<exists>r c p. onBoard r c \<and> b (r, c) = Some p \<and> color p = k \<and> getValidMoves b p r c \<noteq> [])"
proof -
  have "hasAnyMove b k \<longleftrightarrow> (\<exists>r c. (r, c) \<in> set allSquares \<and> canMoveFrom b k (r, c))"
    unfolding hasAnyMove_def find_None_iff by auto
  then show ?thesis unfolding in_allSquares canMoveFrom_iff by blast
qed

subsection \<open>The status recomputation, field by field\<close>

lemma status_updateGameStatus:
  "status (updateGameStatus g) =
     (if 100 \<le> halfMoveClock g then Draw
      else if isCheckmate (board g) White \<or> isCheckmate (board g) Black then Checkmate
      else if isStalemate (board g) White \<or> isStalemate (board g) Black then Stalemate
      else if isKingInCheck (board g) (currentTurn g) then Check
      else Playing)"
  unfolding updateGameStatus_def Let_def by (cases "currentTurn g") simp_all

lemma winner_updateGameStatus:
  "winner (updateGameStatus g) =
     (if isCheckmate (board g) White then Some Black
      else if isCheckmate (board g) Black then Some White
      else if isStalemate (board g) White \<or> isStalemate (board g) Black then None
      else if isKingInCheck (board g) (currentTurn g) then winner g
      else None)"
  unfolding updateGameStatus_def Let_def by (cases "currentTurn g") simp_all

lemma halfMoveClock_updateGameStatus: "halfMoveClock (updateGameStatus g) = halfMoveClock g"
  unfolding updateGameStatus_def Let_def by simp

lemma board_updateGameStatus: "board (updateGameStatus g) = board g"
  unfolding updateGameStatus_def Let_def by simp

lemma currentTurn_updateGameStatus: "currentTurn (updateGameStatus g) = currentTurn g"
  unfolding updateGameStatus_def Let_def by simp

subsection \<open>An applied move, field by field\<close>

lemma board_updateCastlingRights: "board (updateCastlingRights g p frm) = board g"
  unfolding updateCastlingRights_def Let_def by simp

lemma currentTurn_updateCastlingRights:
  "currentTurn (updateCastlingRights g p frm) = currentTurn g"
  unfolding updateCastlingRights_def Let_def by simp

lemma moved_piece_eq:
  "p\<lparr>prow := a, pcol := c, hasMoved := True\<rparr> = p\<lparr>hasMoved := True, prow := a, pcol := c\<rparr>"
  by (cases p) simp

lemma board_applyMove:
  "board (applyMove g m p) =
     simulateMove (board g) (from_row m) (from_col m) (to_row m) (to_col m)
       (p\<lparr>hasMoved := True\<rparr>)"
  unfolding applyMove_def Let_def simulateMove_def moved_piece_eq
  by (simp add: board_updateGameStatus board_updateCastlingRights)

lemma currentTurn_applyMove:
  "currentTurn (applyMove g m p) = (if currentTurn g = White then Black else White)"
  unfolding applyMove_def Let_def
  by (simp add: currentTurn_updateGameStatus currentTurn_updateCastlingRights)

lemma halfMoveClock_applyMove:
  assumes "onBoard (to_row m) (to_col m)"
    and "(from_row m, from_col m) \<noteq> (to_row m, to_col m)"
  shows "halfMoveClock (applyMove g m p) = 0"
  using assms unfolding applyMove_def Let_def cell_def
  by (auto simp: halfMoveClock_updateGameStatus)

lemma lastMove_applyMove:
  "lastMove (applyMove g m p) =
     Some \<lparr>lmFrom = (from_row m, from_col m), lmTo = (to_row m, to_col m),
           lmPiece = p\<lparr>prow := to_row m, pcol := to_col m, hasMoved := True\<rparr>,
           lmPlayerId = playerId m, lmTimestamp = now m, lmPromotion = promotion m,
           isCastle = None, isEnPassant = None\<rparr>"
  unfolding applyMove_def Let_def by simp

lemma status_applyMove:
  "status (applyMove g m p) = status (updateGameStatus (applyMove g m p))"
  unfolding status_updateGameStatus[of "applyMove g m p"]
  unfolding applyMove_def Let_def
  by (simp add: status_updateGameStatus halfMoveClock_updateGameStatus board_updateGameStatus
        currentTurn_updateGameStatus)

lemma winner_applyMove:
  "winner (applyMove g m p) = winner (updateGameStatus (applyMove g m p))"
  unfolding winner_updateGameStatus[of "applyMove g m p"]
  unfolding applyMove_def Let_def
  by (simp add: winner_updateGameStatus board_updateGameStatus currentTurn_updateGameStatus)

subsection \<open>When a move is accepted\<close>

lemma handleMove_accepted_iff:
  "fst (handleMove game m) = Accepted \<longleftrightarrow>
     status game = Playing \<and> color (mpiece m) = currentTurn game \<and>
     0 \<le> from_row m \<and> from_row m \<le> 7 \<and>
     (\<exists>actualPiece. cell (board game) (from_row m) (from_col m) = Some actualPiece \<and>
        pid actualPiece = pid (mpiece m)) \<and>
     isValidMove (board game) (mpiece m) (from_row m) (from_col m) (to_row m) (to_col m) \<and>
     specialMoves game m \<noteq> None"
  unfolding handleMove_def by (auto split: option.splits)

lemma handleMove_not_playing:
  "status game \<noteq> Playing \<Longrightarrow> handleMove game m = (GameNotPlaying, game)"
  unfolding handleMove_def by simp

lemma handleMove_accepted_result:
  assumes "fst (handleMove game m) = Accepted"
  shows "\<exists>game1 piece. specialMoves game m = Some (game1, piece) \<and>
           snd (handleMove game m) = applyMove game1 m piece"
  using assms unfolding handleMove_def by (auto split: option.splits if_splits)

lemma specialMoves_plain:
  assumes "ptype (mpiece m) \<noteq> King"
    and "ptype (mpiece m) = Pawn \<longrightarrow>
           from_col m = to_col m \<and> \<not> canPromotePawn (mpiece m) (to_row m)"
  shows "specialMoves game m = Some (game, mpiece m)"
  using assms unfolding specialMoves_def Let_def by auto

lemma handleMove_plain:
  assumes "status game = Playing" and "color (mpiece m) = currentTurn game"
    and "cell (board game) (from_row m) (from_col m) = Some actualPiece"
    and "pid actualPiece = pid (mpiece m)"
    and "isValidMove (board game) (mpiece m) (from_row m) (from_col m) (to_row m) (to_col m)"
    and "specialMoves game m = Some (game, mpiece m)"
  shows "handleMove game m = (Accepted, applyMove game m (mpiece m))"
proof -
  from assms(3) have "onBoard (from_row m) (from_col m)"
    unfolding cell_def by (auto split: if_splits)
  then have "\<not> (from_row m < 0 \<or> from_row m > 7)" unfolding onBoard_def by auto
  with assms show ?thesis unfolding handleMove_def by simp
qed

lemma handleMove_invalid:
  assumes "status game = Playing" and "color (mpiece m) = currentTurn game"
    and "cell (board game) (from_row m) (from_col m) = Some actualPiece"
    and "pid actualPiece = pid (mpiece m)"
    and "\<not> isValidMove (board game) (mpiece m) (from_row m) (from_col m) (to_row m) (to_col m)"
    and "0 \<le> to_row m" and "to_row m \<le> 7"
  shows "handleMove game m = (InvalidMove, game)"
proof -
  from assms(3) have "onBoard (from_row m) (from_col m)"
    unfolding cell_def by (auto split: if_splits)
  then have "\<not> (from_row m < 0 \<or> from_row m > 7)" unfolding onBoard_def by auto
  with assms show ?thesis unfolding handleMove_def by simp
qed

lemma isValidPawnMove_empty_diagonal:
  "toCol \<noteq> fromCol \<Longrightarrow> cell b toRow toCol = None \<Longrightarrow>
     \<not> isValidPawnMove b piece fromRow fromCol toRow toCol"
  unfolding isValidPawnMove_def Let_def by auto

lemma isValidMove_empty_diagonal:
  "ptype piece = Pawn \<Longrightarrow> toCol \<noteq> fromCol \<Longrightarrow> cell b toRow toCol = None \<Longrightarrow>
     \<not> isValidMove b piece fromRow fromCol toRow toCol"
  unfolding isValidMove_def by (simp add: isValidPawnMove_empty_diagonal)

subsection \<open>Castling, loop by loop\<close>

lemma list_ex_upto: "list_ex P [a..b] \<longleftrightarrow> (\<exists>k::int. a \<le> k \<and> k \<le> b \<and> P k)"
  by (auto simp: list_ex_iff)

lemma transitCols_two:
  "\<bar>toCol - fromCol\<bar> = 2 \<Longrightarrow>
   set (transitCols fromCol toCol) = {fromCol, (fromCol + toCol) div 2}"
  unfolding transitCols_def by (auto simp: abs_if split: if_splits)

lemma isValidCastling_iff:
  "isValidCastling b king fromRow fromCol toCol \<longleftrightarrow>
     \<not> isKingInCheck b (color king) \<and>
     (\<exists>rook. cell b fromRow (if toCol > fromCol then 7 else 0) = Some rook \<and>
        ptype rook = Rook \<and> color rook = color king \<and> \<not> hasMoved rook) \<and>
     \<not> list_ex (\<lambda>c. notNull b fromRow c)
         [min fromCol (if toCol > fromCol then 7 else 0) + 1..
          max fromCol (if toCol > fromCol then 7 else 0) - 1] \<and>
     \<not> list_ex (\<lambda>c. attackedAt (getAttackedSquares b (color king)) fromRow c)
         (transitCols fromCol toCol) \<and>
     \<not> attackedAt (getAttackedSquares b (color king)) fromRow toCol"
  unfolding isValidCastling_def Let_def
  by (cases "cell b fromRow (if toCol > fromCol then 7 else 0)") simp_all

lemma between_empty_iff:
  assumes "onBoard fromRow fromCol" and "rookCol = 0 \<or> rookCol = 7"
  shows "\<not> list_ex (\<lambda>c. notNull b fromRow c)
             [min fromCol rookCol + 1..max fromCol rookCol - 1] \<longleftrightarrow>
     (\<forall>c. min fromCol rookCol < c \<and> c < max fromCol rookCol \<longrightarrow> b (fromRow, c) = None)"
proof -
  have "\<And>c. min fromCol rookCol < c \<Longrightarrow> c < max fromCol rookCol \<Longrightarrow> onBoard fromRow c"
    using assms unfolding onBoard_def by auto
  then have "\<And>c. min fromCol rookCol + 1 \<le> c \<and> c \<le> max fromCol rookCol - 1 \<Longrightarrow>
      notNull b fromRow c \<longleftrightarrow> b (fromRow, c) \<noteq> None"
    unfolding notNull_def by simp
  then show ?thesis
    unfolding list_ex_upto by (metis add1_zle_eq zle_diff1_eq)
qed

lemma castling_enumerated:
  assumes "ptype king = King" and "\<not> hasMoved king"
    and "isValidCastling b king r c (c + 2)"
  shows "(r, c + 2) \<in> set (getValidMoves b king r c)"
proof -
  from assms(3) have "\<not> isKingInCheck b (color king)"
    unfolding isValidCastling_def by (auto split: if_splits)
  with assms show ?thesis
    unfolding getValidMoves_def getKingValidMoves_def by simp
qed

subsection \<open>The attack map covers every attack on the board after a move\<close>

text \<open>
  \<open>sim\<close> is a board that is empty wherever \<open>b\<close> is, except on one square, the
  \<open>hole\<close> (the square a moved piece has left). A piece that attacks a square on
  \<open>sim\<close> marks, on \<open>b\<close>, that square or the hole.
\<close>

lemma pathWalk_step:
  "pathWalk s cr cc tr tc dr dc \<Longrightarrow> \<not> (cr = tr \<and> cc = tc) \<Longrightarrow>
     onBoard cr cc \<and> s (cr, cc) = None \<and> pathWalk s (cr + dr) (cc + dc) tr tc dr dc"
  by (subst (asm) pathWalk.simps) (simp split: if_splits)

lemma ray_head: "onBoard r c \<Longrightarrow> dr \<noteq> 0 \<or> dc \<noteq> 0 \<Longrightarrow> (r, c) \<in> set (ray b r c dr dc)"
  by (subst ray.simps) simp

lemma ray_tail:
  "onBoard r c \<Longrightarrow> dr \<noteq> 0 \<or> dc \<noteq> 0 \<Longrightarrow> b (r, c) = None \<Longrightarrow>
     x \<in> set (ray b (r + dr) (c + dc) dr dc) \<Longrightarrow> x \<in> set (ray b r c dr dc)"
  by (subst ray.simps) simp

lemma pathWalk_ray:
  "(\<forall>sq. sim sq = None \<longrightarrow> b sq \<noteq> None \<longrightarrow> sq = hole) \<Longrightarrow>
   pathWalk sim cr cc tr tc dr dc \<Longrightarrow> onBoard tr tc \<Longrightarrow> dr \<noteq> 0 \<or> dc \<noteq> 0 \<Longrightarrow>
   (tr, tc) \<in> set (ray b cr cc dr dc) \<or> hole \<in> set (ray b cr cc dr dc)"
proof (induction sim cr cc tr tc dr dc rule: pathWalk.induct)
  case (1 s cr cc tr tc dr dc)
  show ?case
  proof (cases "cr = tr \<and> cc = tc")
    case True
    with "1.prems" show ?thesis using ray_head[of tr tc dr dc b] by simp
  next
    case False
    from pathWalk_step[OF "1.prems"(2) False]
    have ob: "onBoard cr cc" and e: "s (cr, cc) = None"
      and w: "pathWalk s (cr + dr) (cc + dc) tr tc dr dc" by simp_all
    show ?thesis
    proof (cases "b (cr, cc) = None")
      case True
      have "(tr, tc) \<in> set (ray b (cr + dr) (cc + dc) dr dc) \<or>
            hole \<in> set (ray b (cr + dr) (cc + dc) dr dc)"
        using "1.IH" False ob "1.prems" e w by auto
      then show ?thesis using ray_tail[of cr cc dr dc b] ob "1.prems"(4) True by blast
    next
      case b: False
      with e "1.prems"(1) have "(cr, cc) = hole" by blast
      then show ?thesis using ray_head[of cr cc dr dc b] ob "1.prems"(4) by auto
    qed
  qed
qed

lemma rook_attack_marked:
  assumes "\<forall>sq. sim sq = None \<longrightarrow> b sq \<noteq> None \<longrightarrow> sq = hole"
    and "canRookAttackSquare sim fr fc tr tc" and "(fr, fc) \<noteq> (tr, tc)" and "onBoard tr tc"
  shows "(tr, tc) \<in> set (markRookAttacks b fr fc) \<or> hole \<in> set (markRookAttacks b fr fc)"
proof -
  from assms(2) have al: "fr = tr \<or> fc = tc" and pc: "isPathClear sim fr fc tr tc"
    unfolding canRookAttackSquare_def by (auto split: if_splits)
  consider (up) "fc = tc" "tr < fr" | (down) "fc = tc" "fr < tr"
    | (left) "fr = tr" "tc < fc" | (right) "fr = tr" "fc < tc"
    using al assms(3) by force
  then show ?thesis
  proof cases
    case up
    with pc have "pathWalk sim (fr - 1) fc tr tc (-1) 0" unfolding isPathClear_def Let_def by simp
    from pathWalk_ray[OF assms(1) this assms(4)] show ?thesis
      unfolding markRookAttacks_def by auto
  next
    case down
    with pc have "pathWalk sim (fr + 1) fc tr tc 1 0" unfolding isPathClear_def Let_def by simp
    from pathWalk_ray[OF assms(1) this assms(4)] show ?thesis
      unfolding markRookAttacks_def by auto
  next
    case left
    with pc have "pathWalk sim fr (fc - 1) tr tc 0 (-1)" unfolding isPathClear_def Let_def by simp
    from pathWalk_ray[OF assms(1) this assms(4)] show ?thesis
      unfolding markRookAttacks_def by auto
  next
    case right
    with pc have "pathWalk sim fr (fc + 1) tr tc 0 1" unfolding isPathClear_def Let_def by simp
    from pathWalk_ray[OF assms(1) this assms(4)] show ?thesis
      unfolding markRookAttacks_def by auto
  qed
qed

lemma bishop_attack_marked:
  assumes "\<forall>sq. sim sq = None \<longrightarrow> b sq \<noteq> None \<longrightarrow> sq = hole"
    and "canBishopAttackSquare sim fr fc tr tc" and "(fr, fc) \<noteq> (tr, tc)" and "onBoard tr tc"
  shows "(tr, tc) \<in> set (markBishopAttacks b fr fc) \<or> hole \<in> set (markBishopAttacks b fr fc)"
proof -
  from assms(2) have al: "\<bar>tr - fr\<bar> = \<bar>tc - fc\<bar>" and pc: "isPathClear sim fr fc tr tc"
    unfolding canBishopAttackSquare_def by (auto split: if_splits)
  consider (ul) "tr < fr" "tc < fc" | (ur) "tr < fr" "fc < tc"
    | (dl) "fr < tr" "tc < fc" | (dr) "fr < tr" "fc < tc"
    using al assms(3) by force
  then show ?thesis
  proof cases
    case ul
    with pc have "pathWalk sim (fr - 1) (fc - 1) tr tc (-1) (-1)" unfolding isPathClear_def Let_def by simp
    from pathWalk_ray[OF assms(1) this assms(4)] show ?thesis
      unfolding markBishopAttacks_def by auto
  next
    case ur
    with pc have "pathWalk sim (fr - 1) (fc + 1) tr tc (-1) 1" unfolding isPathClear_def Let_def by simp
    from pathWalk_ray[OF assms(1) this assms(4)] show ?thesis
      unfolding markBishopAttacks_def by auto
  next
    case dl
    with pc have "pathWalk sim (fr + 1) (fc - 1) tr tc 1 (-1)" unfolding isPathClear_def Let_def by simp
    from pathWalk_ray[OF assms(1) this assms(4)] show ?thesis
      unfolding markBishopAttacks_def by auto
  next
    case dr
    with pc have "pathWalk sim (fr + 1) (fc + 1) tr tc 1 1" unfolding isPathClear_def Let_def by simp
    from pathWalk_ray[OF assms(1) this assms(4)] show ?thesis
      unfolding markBishopAttacks_def by auto
  qed
qed

lemma queen_attack_marked:
  assumes "\<forall>sq. sim sq = None \<longrightarrow> b sq \<noteq> None \<longrightarrow> sq = hole"
    and "canQueenAttackSquare sim fr fc tr tc" and "(fr, fc) \<noteq> (tr, tc)" and "onBoard tr tc"
  shows "(tr, tc) \<in> set (markQueenAttacks b fr fc) \<or> hole \<in> set (markQueenAttacks b fr fc)"
proof -
  from assms(2) have "canRookAttackSquare sim fr fc tr tc \<or> canBishopAttackSquare sim fr fc tr tc"
    unfolding canQueenAttackSquare_def canRookAttackSquare_def canBishopAttackSquare_def Let_def
    by (auto split: if_splits)
  then show ?thesis
    using rook_attack_marked[OF assms(1) _ assms(3,4)] bishop_attack_marked[OF assms(1) _ assms(3,4)]
    unfolding markQueenAttacks_def by auto
qed

lemma pawn_attack_marked:
  assumes "canPawnAttackSquare p fr fc tr tc" and "onBoard fr fc" and "onBoard tr tc"
  shows "(tr, tc) \<in> set (markPawnAttacks p fr fc)"
  using assms unfolding canPawnAttackSquare_def markPawnAttacks_def Let_def onBoard_def
  by (auto simp: abs_if split: if_splits)

lemma knight_attack_marked:
  assumes "canKnightAttackSquare fr fc tr tc" and "onBoard tr tc"
  shows "(tr, tc) \<in> set (markKnightAttacks fr fc)"
proof -
  from assms(1) have "(tr - fr, tc - fc) \<in> set knightMoves"
    unfolding canKnightAttackSquare_def knightMoves_def Let_def
    by (auto simp: abs_if split: if_splits)
  then have "(fr + (tr - fr), fc + (tc - fc)) \<in>
      set (map (\<lambda>(rowDiff, colDiff). (fr + rowDiff, fc + colDiff)) knightMoves)"
    by (metis (no_types, lifting) image_eqI list.set_map old.prod.case)
  with assms(2) show ?thesis unfolding markKnightAttacks_def by simp
qed

lemma king_attack_marked:
  assumes "canKingAttackSquare fr fc tr tc" and "(fr, fc) \<noteq> (tr, tc)" and "onBoard tr tc"
  shows "(tr, tc) \<in> set (markKingAttacks fr fc)"
proof -
  from assms(1,2) have "(tr - fr, tc - fc) \<in> set kingOffsets"
    unfolding canKingAttackSquare_def kingOffsets_def Let_def
    by (auto simp: abs_if split: if_splits)
  then have "(fr + (tr - fr), fc + (tc - fc)) \<in>
      set (map (\<lambda>(rowDiff, colDiff). (fr + rowDiff, fc + colDiff)) kingOffsets)"
    by (metis (no_types, lifting) image_eqI list.set_map old.prod.case)
  with assms(3) show ?thesis unfolding markKingAttacks_def by simp
qed

lemma piece_attack_marked:
  assumes "\<forall>sq. sim sq = None \<longrightarrow> b sq \<noteq> None \<longrightarrow> sq = hole"
    and "canPieceAttackSquare sim p fr fc tr tc" and "onBoard fr fc" and "onBoard tr tc"
  shows "(tr, tc) \<in> set (markAttackedSquares b p fr fc) \<or>
         hole \<in> set (markAttackedSquares b p fr fc)"
proof -
  from assms(2) have ne: "(fr, fc) \<noteq> (tr, tc)"
    unfolding canPieceAttackSquare_def by (auto split: if_splits)
  show ?thesis
  proof (cases "ptype p")
    case Pawn
    with assms(2) ne have "canPawnAttackSquare p fr fc tr tc"
      unfolding canPieceAttackSquare_def by auto
    from pawn_attack_marked[OF this assms(3,4)] Pawn show ?thesis
      unfolding markAttackedSquares_def by simp
  next
    case Rook
    with assms(2) ne have "canRookAttackSquare sim fr fc tr tc"
      unfolding canPieceAttackSquare_def by auto
    from rook_attack_marked[OF assms(1) this ne assms(4)] Rook show ?thesis
      unfolding markAttackedSquares_def by simp
  next
    case Knight
    with assms(2) ne have "canKnightAttackSquare fr fc tr tc"
      unfolding canPieceAttackSquare_def by auto
    from knight_attack_marked[OF this assms(4)] Knight show ?thesis
      unfolding markAttackedSquares_def by simp
  next
    case Bishop
    with assms(2) ne have "canBishopAttackSquare sim fr fc tr tc"
      unfolding canPieceAttackSquare_def by auto
    from bishop_attack_marked[OF assms(1) this ne assms(4)] Bishop show ?thesis
      unfolding markAttackedSquares_def by simp
  next
    case Queen
    with assms(2) ne have "canQueenAttackSquare sim fr fc tr tc"
      unfolding canPieceAttackSquare_def by auto
    from queen_attack_marked[OF assms(1) this ne assms(4)] Queen show ?thesis
      unfolding markAttackedSquares_def by simp
  next
    case King
    with assms(2) ne have "canKingAttackSquare fr fc tr tc"
      unfolding canPieceAttackSquare_def by auto
    from king_attack_marked[OF this ne assms(4)] King show ?thesis
      unfolding markAttackedSquares_def by simp
  qed
qed

lemma attacked_by_piece:
  assumes "onBoard r c" and "b (r, c) = Some p" and "color p = opponent k"
    and "x \<in> set (markAttackedSquares b p r c)"
  shows "attackedAt (getAttackedSquares b k) (fst x) (snd x)"
proof -
  have "(r, c) \<in> set allSquares" using assms(1) by (simp add: in_allSquares)
  then show ?thesis
    using assms(2,3,4) unfolding attackedAt_def getAttackedSquares_def
    by (auto intro!: bexI[of _ "(r, c)"])
qed

lemma find_unique:
  "x \<in> set xs \<Longrightarrow> P x \<Longrightarrow> (\<forall>y \<in> set xs. P y \<longrightarrow> y = x) \<Longrightarrow> List.find P xs = Some x"
proof (induction xs)
  case Nil
  then show ?case by simp
next
  case (Cons a xs)
  show ?case
  proof (cases "P a")
    case True
    with Cons.prems(3) have "a = x" by simp
    with True show ?thesis by simp
  next
    case False
    with Cons.prems(1,2) have m: "x \<in> set xs" by auto
    from Cons.prems(3) have u: "\<forall>y \<in> set xs. P y \<longrightarrow> y = x" by simp
    from Cons.IH[OF m Cons.prems(2) u] False show ?thesis by simp
  qed
qed

lemma castling_sim_safe:
  assumes kg: "ptype king = King" and ob: "onBoard r tc" and ne: "tc \<noteq> c"
    and cs: "isValidCastling b king r c tc"
    and un: "\<forall>kr kc. onBoard kr kc \<and> isKingOf (color king) (b (kr, kc)) \<longrightarrow> (kr, kc) = (r, c)"
  shows "\<not> isKingInCheck (simulateMove b r c r tc king) (color king)"
proof -
  let ?sim = "simulateMove b r c r tc king"
  let ?k = "color king"
  have hole: "\<forall>sq. ?sim sq = None \<longrightarrow> b sq \<noteq> None \<longrightarrow> sq = (r, c)"
    unfolding simulateMove_def by auto
  have simk: "isKingOf ?k (?sim (r, tc))"
    using kg ne unfolding simulateMove_def isKingOf_def by simp
  have "\<forall>y \<in> set allSquares. isKingOf ?k (?sim y) \<longrightarrow> y = (r, tc)"
  proof (intro ballI impI)
    fix y assume y: "y \<in> set allSquares" and ky: "isKingOf ?k (?sim y)"
    obtain yr yc where yy: "y = (yr, yc)" by (cases y)
    show "y = (r, tc)"
    proof (rule ccontr)
      assume n: "y \<noteq> (r, tc)"
      from ky have "y \<noteq> (r, c)" unfolding simulateMove_def isKingOf_def by auto
      with n ky have "isKingOf ?k (b y)" unfolding simulateMove_def by simp
      with un y yy have "y = (r, c)" by (simp add: in_allSquares)
      with \<open>y \<noteq> (r, c)\<close> show False by simp
    qed
  qed
  with simk ob have fk: "findKing ?sim ?k = Some (r, tc)"
    unfolding findKing_def by (intro find_unique) (simp_all add: in_allSquares)
  from cs have na: "\<not> attackedAt (getAttackedSquares b ?k) r tc"
    and nt: "\<not> list_ex (\<lambda>x. attackedAt (getAttackedSquares b ?k) r x) (transitCols c tc)"
    unfolding isValidCastling_iff by simp_all
  have "c \<in> set (transitCols c tc)" using ne unfolding transitCols_def by auto
  with nt have nc: "\<not> attackedAt (getAttackedSquares b ?k) r c"
    unfolding list_ex_iff by blast
  have "\<forall>sq \<in> set allSquares. \<not> attacksFrom ?sim (opponent ?k) r tc sq"
  proof (intro ballI notI)
    fix sq assume sq: "sq \<in> set allSquares" and at: "attacksFrom ?sim (opponent ?k) r tc sq"
    obtain sr sc where s: "sq = (sr, sc)" by (cases sq)
    from at obtain p where p: "?sim sq = Some p" "color p = opponent ?k"
      "canPieceAttackSquare ?sim p sr sc r tc"
      unfolding attacksFrom_def s by (auto split: option.splits if_splits)
    have "opponent ?k \<noteq> ?k" unfolding opponent_def by auto
    with p(1,2) have n1: "(sr, sc) \<noteq> (r, tc)"
      unfolding simulateMove_def s by (auto split: if_splits)
    from p(1) have n2: "(sr, sc) \<noteq> (r, c)" unfolding simulateMove_def s by auto
    from p(1) n1 n2 have bp: "b (sr, sc) = Some p"
      unfolding simulateMove_def s fun_upd_apply by (simp split: if_splits)
    from sq s have os: "onBoard sr sc" by (simp add: in_allSquares)
    from piece_attack_marked[OF hole p(3) os ob]
    have "attackedAt (getAttackedSquares b ?k) r tc \<or> attackedAt (getAttackedSquares b ?k) r c"
      using attacked_by_piece[of sr sc b p ?k "(r, tc)"] attacked_by_piece[of sr sc b p ?k "(r, c)"]
        os bp p(2)
      by auto
    with na nc show False by simp
  qed
  then have "List.find (attacksFrom ?sim (opponent ?k) r tc) allSquares = None"
    unfolding find_None_iff by blast
  with fk show ?thesis unfolding isKingInCheck_def by simp
qed

subsection \<open>What the enumerator and the engine do agree on\<close>

lemma getValidMoves_other_pieces:
  assumes "ptype piece \<noteq> King"
  shows "set (getValidMoves b piece r c) = {(toRow, toCol). isValidMove b piece r c toRow toCol}"
  using assms isValidMove_dest(1)[of b piece r c]
  unfolding getValidMoves_def by (auto simp: in_allSquares)

lemma getValidMoves_other_pieces_safe:
  assumes "ptype piece \<noteq> King" and "(toRow, toCol) \<in> set (getValidMoves b piece r c)"
  shows "\<not> isKingInCheck (simulateMove b r c toRow toCol piece) (color piece)"
  using assms unfolding getValidMoves_other_pieces[OF assms(1)] isValidMove_def
  by (auto split: if_splits)

lemma isValidMove_king_enumerated:
  assumes "ptype king = King" and "isValidMove b king r c toRow toCol"
  shows "(toRow, toCol) \<in> set (getValidMoves b king r c)"
proof -
  from assms have s: "isValidKingMove b king r c toRow toCol"
    and nf: "\<not> (case b (toRow, toCol) of None \<Rightarrow> False
                 | Some targetPiece \<Rightarrow> color targetPiece = color king)"
    and nc: "\<not> isKingInCheck (simulateMove b r c toRow toCol king) (color king)"
    and ne: "(r, c) \<noteq> (toRow, toCol)" and ob: "onBoard toRow toCol"
    unfolding isValidMove_def onBoard_def by (auto split: if_splits)
  show ?thesis
  proof (cases "\<bar>toRow - r\<bar> \<le> 1 \<and> \<bar>toCol - c\<bar> \<le> 1")
    case True
    with s have na: "\<not> attackedAt (getAttackedSquares b (color king)) toRow toCol"
      unfolding isValidKingMove_def Let_def by (auto split: if_splits)
    from True ne have "(toRow - r, toCol - c) \<in> set kingOffsets"
      unfolding kingOffsets_def by (auto simp: abs_if split: if_splits)
    then have "(toRow, toCol) \<in> set (map (\<lambda>(rowDiff, colDiff). (r + rowDiff, c + colDiff)) kingOffsets)"
      by force
    moreover have "kingStepOk b king r c (toRow, toCol)"
      using ob nf na nc unfolding kingStepOk_def onBoard_def by auto
    ultimately show ?thesis using assms(1)
      unfolding getValidMoves_def getKingValidMoves_def by simp
  next
    case False
    with s have cs: "toRow = r" "\<bar>toCol - c\<bar> = 2" "\<not> hasMoved king"
      "isValidCastling b king r c toCol"
      unfolding isValidKingMove_def Let_def by (auto split: if_splits)
    then have "\<not> isKingInCheck b (color king)"
      unfolding isValidCastling_def by (auto split: if_splits)
    moreover from cs have "toCol = c + 2 \<or> toCol = c - 2" by (auto simp: abs_if split: if_splits)
    ultimately show ?thesis using assms(1) cs
      unfolding getValidMoves_def getKingValidMoves_def by auto
  qed
qed

lemma castling_engine_iff:
  assumes kg: "ptype king = King" and ob: "onBoard r c" and two: "\<bar>tc - c\<bar> = 2"
    and lo: "0 < tc" and hi: "tc < 7"
    and un: "\<forall>kr kc. onBoard kr kc \<and> isKingOf (color king) (b (kr, kc)) \<longrightarrow> (kr, kc) = (r, c)"
  shows "isValidMove b king r c r tc \<longleftrightarrow> isValidKingMove b king r c r tc"
proof
  assume "isValidMove b king r c r tc"
  with kg show "isValidKingMove b king r c r tc"
    unfolding isValidMove_def by (auto split: if_splits)
next
  assume v: "isValidKingMove b king r c r tc"
  with two have cs: "isValidCastling b king r c tc"
    unfolding isValidKingMove_def Let_def by (auto split: if_splits)
  have rc: "(if tc > c then 7 else 0) = (0::int) \<or> (if tc > c then 7 else 0) = (7::int)" by simp
  from cs have "\<forall>x. min c (if tc > c then 7 else 0) < x \<and> x < max c (if tc > c then 7 else 0)
      \<longrightarrow> b (r, x) = None"
    unfolding isValidCastling_iff between_empty_iff[OF ob rc] by simp
  moreover have "min c (if tc > c then 7 else 0) < tc \<and> tc < max c (if tc > c then 7 else 0)"
    using two lo hi by (auto simp: abs_if split: if_splits)
  ultimately have e: "b (r, tc) = None" by blast
  from two have ne: "tc \<noteq> c" by auto
  from ob lo hi have ot: "onBoard r tc" unfolding onBoard_def by simp
  from castling_sim_safe[OF kg ot ne cs un]
  have "\<not> isKingInCheck (simulateMove b r c r tc king) (color king)" .
  with v e ne ot kg show "isValidMove b king r c r tc"
    unfolding isValidMove_def onBoard_def by simp
qed

lemma kingStep_valid:
  assumes "ptype king = King" and "(rowDiff, colDiff) \<in> set kingOffsets"
    and "kingStepOk b king r c (r + rowDiff, c + colDiff)"
  shows "isValidMove b king r c (r + rowDiff) (c + colDiff)"
proof -
  from assms(2) have d: "\<bar>rowDiff\<bar> \<le> 1" "\<bar>colDiff\<bar> \<le> 1" "rowDiff \<noteq> 0 \<or> colDiff \<noteq> 0"
    unfolding kingOffsets_def by auto
  from assms(3) have k: "\<not> (r + rowDiff < 0 \<or> r + rowDiff \<ge> 8 \<or> c + colDiff < 0 \<or> c + colDiff \<ge> 8)"
    "\<not> (case b (r + rowDiff, c + colDiff) of None \<Rightarrow> False
         | Some targetPiece \<Rightarrow> color targetPiece = color king)"
    "\<not> attackedAt (getAttackedSquares b (color king)) (r + rowDiff) (c + colDiff)"
    "\<not> isKingInCheck (simulateMove b r c (r + rowDiff) (c + colDiff) king) (color king)"
    unfolding kingStepOk_def by (auto split: if_splits)
  from k(1) have ob: "onBoard (r + rowDiff) (c + colDiff)" unfolding onBoard_def by auto
  have "isValidKingMove b king r c (r + rowDiff) (c + colDiff)"
    using d k(2,3,4) ob unfolding isValidKingMove_def Let_def cell_def by simp
  with assms(1) d(3) k show ?thesis unfolding isValidMove_def by auto
qed

lemma getValidMoves_king_eq:
  assumes kg: "ptype king = King" and ob: "onBoard r c"
    and home: "\<not> hasMoved king \<longrightarrow> c = 4"
    and un: "\<forall>kr kc. onBoard kr kc \<and> isKingOf (color king) (b (kr, kc)) \<longrightarrow> (kr, kc) = (r, c)"
  shows "set (getValidMoves b king r c) = {(toRow, toCol). isValidMove b king r c toRow toCol}"
proof (intro set_eqI iffI)
  fix x assume "x \<in> {(toRow, toCol). isValidMove b king r c toRow toCol}"
  then show "x \<in> set (getValidMoves b king r c)"
    using isValidMove_king_enumerated[OF kg] by auto
next
  fix x assume x: "x \<in> set (getValidMoves b king r c)"
  then consider
    (step) rowDiff colDiff where "(rowDiff, colDiff) \<in> set kingOffsets"
      "x = (r + rowDiff, c + colDiff)" "kingStepOk b king r c x"
    | (short) "x = (r, c + 2)" "\<not> hasMoved king" "isValidCastling b king r c (c + 2)"
    | (long) "x = (r, c - 2)" "\<not> hasMoved king" "isValidCastling b king r c (c - 2)"
    using kg unfolding getValidMoves_def getKingValidMoves_def
    by (auto split: if_splits)
  then show "x \<in> {(toRow, toCol). isValidMove b king r c toRow toCol}"
  proof cases
    case step
    with kingStep_valid[OF kg step(1), of b r c] show ?thesis by simp
  next
    case short
    with home have c: "c = 4" by simp
    from short have "isValidKingMove b king r c r (c + 2)"
      unfolding isValidKingMove_def Let_def by simp
    with castling_engine_iff[OF kg ob _ _ _ un, of "c + 2"] short(1) c show ?thesis by simp
  next
    case long
    with home have c: "c = 4" by simp
    from long have "isValidKingMove b king r c r (c - 2)"
      unfolding isValidKingMove_def Let_def by simp
    with castling_engine_iff[OF kg ob _ _ _ un, of "c - 2"] long(1) c show ?thesis by simp
  qed
qed

lemma getValidMoves_king_safe:
  assumes "ptype king = King" and "onBoard r c" and "\<not> hasMoved king \<longrightarrow> c = 4"
    and "\<forall>kr kc. onBoard kr kc \<and> isKingOf (color king) (b (kr, kc)) \<longrightarrow> (kr, kc) = (r, c)"
    and "(toRow, toCol) \<in> set (getValidMoves b king r c)"
  shows "\<not> isKingInCheck (simulateMove b r c toRow toCol king) (color king)"
  using assms(5) unfolding getValidMoves_king_eq[OF assms(1,2,3,4)] isValidMove_def
  by (auto split: if_splits)

subsection \<open>The concrete positions, evaluated\<close>

lemma rookMove_valid: "isValidMove rookBoard blackRook 6 0 7 0"
  by code_simp

lemma rookMove_result:
  "handleMove rookGame rookMove = (Accepted, applyMove rookGame rookMove blackRook)"
proof -
  have sp: "specialMoves rookGame rookMove = Some (rookGame, mpiece rookMove)"
    by (rule specialMoves_plain) (simp_all add: rookMove_def request_def blackRook_def pieceAt_def)
  have c: "cell (board rookGame) (from_row rookMove) (from_col rookMove) = Some blackRook"
    by code_simp
  show ?thesis
    using handleMove_plain[of rookGame rookMove blackRook] sp c rookMove_valid
    by (simp add: rookGame_def sessionOn_def rookMove_def request_def blackRook_def pieceAt_def)
qed

lemma rookMove_board: "board (applyMove rookGame rookMove blackRook) = checkBoard"
  unfolding board_applyMove checkBoard_def
  by (simp add: rookGame_def sessionOn_def rookMove_def request_def blackRook_def pieceAt_def)

lemma checkBoard_facts:
  "isKingInCheck checkBoard White" "\<not> isCheckmate checkBoard White"
  "\<not> isKingInCheck checkBoard Black" "\<not> isStalemate checkBoard Black"
  by code_simp+

lemma rookMove_status: "status (snd (handleMove rookGame rookMove)) = Check"
proof -
  have t: "currentTurn (applyMove rookGame rookMove blackRook) = White"
    unfolding currentTurn_applyMove by (simp add: rookGame_def sessionOn_def)
  have h: "halfMoveClock (applyMove rookGame rookMove blackRook) = 0"
    by (rule halfMoveClock_applyMove)
       (simp_all add: rookMove_def request_def blackRook_def pieceAt_def onBoard_def)
  show ?thesis
    unfolding rookMove_result snd_conv status_applyMove status_updateGameStatus rookMove_board t h
    using checkBoard_facts by (simp add: isCheckmate_def isStalemate_def)
qed

lemma kingReply_valid:
  "isValidMove checkBoard (mpiece kingReply) (from_row kingReply) (from_col kingReply)
     (to_row kingReply) (to_col kingReply)"
  by code_simp

lemma rookSlip_invalid:
  "\<not> isValidMove rookBoard (mpiece rookSlip) (from_row rookSlip) (from_col rookSlip)
       (to_row rookSlip) (to_col rookSlip)"
  by code_simp

lemma rookSlip_result: "handleMove rookGame rookSlip = (InvalidMove, rookGame)"
proof -
  have c: "cell (board rookGame) (from_row rookSlip) (from_col rookSlip) = Some blackRook"
    by code_simp
  have v: "\<not> isValidMove (board rookGame) (mpiece rookSlip) (from_row rookSlip)
               (from_col rookSlip) (to_row rookSlip) (to_col rookSlip)"
    using rookSlip_invalid by (simp add: rookGame_def sessionOn_def)
  show ?thesis
    using handleMove_invalid[of rookGame rookSlip blackRook] c v
    by (simp add: rookGame_def sessionOn_def rookSlip_def request_def blackRook_def pieceAt_def)
qed

lemma epAdvance_valid: "isValidMove epBoard blackPawn 1 3 3 3"
  by code_simp

lemma epAdvance_result:
  "handleMove epGame epAdvance = (Accepted, applyMove epGame epAdvance blackPawn)"
proof -
  have sp: "specialMoves epGame epAdvance = Some (epGame, mpiece epAdvance)"
    by (rule specialMoves_plain)
       (simp_all add: epAdvance_def request_def blackPawn_def pieceAt_def canPromotePawn_def)
  have c: "cell (board epGame) (from_row epAdvance) (from_col epAdvance) = Some blackPawn"
    by code_simp
  show ?thesis
    using handleMove_plain[of epGame epAdvance blackPawn] sp c epAdvance_valid
    by (simp add: epGame_def sessionOn_def epAdvance_def request_def blackPawn_def pieceAt_def)
qed

lemma epAdvance_board: "board (applyMove epGame epAdvance blackPawn) = epBoardAfter"
  unfolding board_applyMove epBoardAfter_def
  by (simp add: epGame_def sessionOn_def epAdvance_def request_def blackPawn_def pieceAt_def)

lemma epBoardAfter_facts:
  "\<not> isKingInCheck epBoardAfter White" "\<not> isKingInCheck epBoardAfter Black"
  "\<not> isStalemate epBoardAfter White" "\<not> isStalemate epBoardAfter Black"
  "cell epBoardAfter 3 4 = Some whitePawn" "cell epBoardAfter 2 3 = None"
  "map_option ptype (cell epBoardAfter 3 3) = Some Pawn"
  "map_option color (cell epBoardAfter 3 3) = Some Black"
  by code_simp+

lemma epAdvance_status: "status (applyMove epGame epAdvance blackPawn) = Playing"
proof -
  have t: "currentTurn (applyMove epGame epAdvance blackPawn) = White"
    unfolding currentTurn_applyMove by (simp add: epGame_def sessionOn_def)
  have h: "halfMoveClock (applyMove epGame epAdvance blackPawn) = 0"
    by (rule halfMoveClock_applyMove)
       (simp_all add: epAdvance_def request_def blackPawn_def pieceAt_def onBoard_def)
  show ?thesis
    unfolding status_applyMove status_updateGameStatus epAdvance_board t h
    using epBoardAfter_facts by (simp add: isCheckmate_def)
qed

lemma staleMove_valid: "isValidMove staleBoard hPawn 6 7 5 7"
  by code_simp

lemma staleMove_result:
  "handleMove staleGame staleMove = (Accepted, applyMove staleGame staleMove hPawn)"
proof -
  have sp: "specialMoves staleGame staleMove = Some (staleGame, mpiece staleMove)"
    by (rule specialMoves_plain)
       (simp_all add: staleMove_def request_def hPawn_def pieceAt_def canPromotePawn_def)
  have c: "cell (board staleGame) (from_row staleMove) (from_col staleMove) = Some hPawn"
    by code_simp
  show ?thesis
    using handleMove_plain[of staleGame staleMove hPawn] sp c staleMove_valid
    by (simp add: staleGame_def sessionOn_def staleMove_def request_def hPawn_def pieceAt_def)
qed

lemma staleMove_board: "board (applyMove staleGame staleMove hPawn) = staleBoardAfter"
  unfolding board_applyMove staleBoardAfter_def
  by (simp add: staleGame_def sessionOn_def staleMove_def request_def hPawn_def pieceAt_def)

lemma staleBoardAfter_facts:
  "\<not> isKingInCheck staleBoardAfter White" "isStalemate staleBoardAfter White"
  "\<not> isKingInCheck staleBoardAfter Black" "\<not> isStalemate staleBoardAfter Black"
  by code_simp+

lemma queenReply_valid:
  "isValidMove staleBoardAfter (mpiece queenReply) (from_row queenReply) (from_col queenReply)
     (to_row queenReply) (to_col queenReply)"
  by code_simp

subsection \<open>Promotion and joining, field by field\<close>

lemma board_handlePromotion:
  "board (handlePromotion g r c t stamp) =
     (case cell (board g) r c of
        None \<Rightarrow> board g
      | Some piece \<Rightarrow>
          if ptype piece = Pawn
          then (board g)((r, c) :=
                  Some (piece\<lparr>ptype := t,
                              pid := colorName (color piece) @ ''_'' @ typeName t @
                                     ''_promoted_'' @ stamp\<rparr>))
          else board g)"
  unfolding handlePromotion_def by (simp add: board_updateGameStatus split: option.splits)

lemma currentTurn_handlePromotion:
  "currentTurn (handlePromotion g r c t stamp) = currentTurn g"
  unfolding handlePromotion_def
  by (simp add: currentTurn_updateGameStatus split: option.splits)

lemma players_updateGameStatus: "players (updateGameStatus g) = players g"
  unfolding updateGameStatus_def Let_def by simp

lemma players_handlePromotion: "players (handlePromotion g r c t stamp) = players g"
  unfolding handlePromotion_def
  by (simp add: players_updateGameStatus split: option.splits)

lemma handleJoin_fields:
  "board (handleJoin g p) = board g"
  "currentTurn (handleJoin g p) = currentTurn g"
  "length (players g) = 1 \<Longrightarrow> status (handleJoin g p) = Playing"
  unfolding handleJoin_def by simp_all

lemma firstJoin_fields:
  "board (handleJoin (createGame gameId) p) = createInitialBoard"
  "players (handleJoin (createGame gameId) p) = [p]"
  "currentTurn (handleJoin (createGame gameId) p) = White"
  unfolding handleJoin_def createGame_def by simp_all

lemma initial_cells:
  "cell createInitialBoard 6 4 = Some (newPiece Pawn White 6 4)"
  "cell createInitialBoard 6 6 = Some (newPiece Pawn White 6 6)"
  "cell createInitialBoard 6 7 = Some (newPiece Pawn White 6 7)"
  "cell createInitialBoard 1 4 = Some (newPiece Pawn Black 1 4)"
  by code_simp+

lemma promoGame_board: "board promoGame = promoBoard"
proof -
  have a: "board (handlePromotion (handleJoin (createGame ''default-game'') ''p1'') 6 6 King ''1'') =
      createInitialBoard((6, 6) := Some promotedKing)"
    unfolding board_handlePromotion firstJoin_fields
    by (simp add: initial_cells promotedKing_def newPiece_def colorName_def typeName_def)
  have b: "cell (createInitialBoard((6, 6) := Some promotedKing)) 6 7 =
      Some (newPiece Pawn White 6 7)"
    using initial_cells(3) by (simp add: cell_def onBoard_def)
  show ?thesis
    unfolding promoGame_def board_handlePromotion[of _ 6 7] a b promoBoard_def
    by (simp add: promotedRook_def newPiece_def colorName_def typeName_def)
qed

lemma promoBoard_castling: "isValidCastling promoBoard promotedKing 6 6 (6 + 2)"
  by code_simp

lemma knightGame_fields:
  "board knightGame = knightBoard" "status knightGame = Playing"
  "currentTurn knightGame = White"
proof -
  let ?g = "handlePromotion (handleJoin (createGame ''default-game'') ''p1'') 6 4 Knight ''0''"
  have p: "players ?g = [''p1'']" by (simp add: players_handlePromotion firstJoin_fields)
  have b: "board ?g = knightBoard"
    unfolding board_handlePromotion firstJoin_fields
    by (simp add: initial_cells knightBoard_def e2Knight_def newPiece_def colorName_def
          typeName_def)
  have t: "currentTurn ?g = White" by (simp add: currentTurn_handlePromotion firstJoin_fields)
  show "board knightGame = knightBoard" "status knightGame = Playing"
    "currentTurn knightGame = White"
    unfolding knightGame_def using p b t by (simp_all add: handleJoin_fields)
qed

lemma knightMove_valid: "isValidMove knightBoard e2Knight 6 4 4 3"
  by code_simp

lemma knightMove_result:
  "handleMove knightGame knightMove = (Accepted, applyMove knightGame knightMove e2Knight)"
proof -
  have sp: "specialMoves knightGame knightMove = Some (knightGame, mpiece knightMove)"
    by (rule specialMoves_plain)
       (simp_all add: knightMove_def request_def e2Knight_def newPiece_def)
  have c: "cell knightBoard 6 4 = Some e2Knight" by (simp add: knightBoard_def cell_def onBoard_def)
  show ?thesis
    using handleMove_plain[of knightGame knightMove e2Knight] sp c knightMove_valid
    by (simp add: knightGame_fields knightMove_def request_def e2Knight_def newPiece_def)
qed

lemma twoKingGame_board: "board twoKingGame = twoKingBoard"
proof -
  let ?b1 = "simulateMove knightBoard 6 4 4 3 (e2Knight\<lparr>hasMoved := True\<rparr>)"
  let ?g1 = "snd (handleMove knightGame knightMove)"
  have b1: "board ?g1 = ?b1"
    unfolding knightMove_result snd_conv board_applyMove
    by (simp add: knightGame_fields knightMove_def request_def e2Knight_def newPiece_def)
  have c1: "cell ?b1 1 4 = Some (newPiece Pawn Black 1 4)"
    using initial_cells(4) by (simp add: cell_def onBoard_def simulateMove_def knightBoard_def)
  have b2: "board (handlePromotion ?g1 1 4 Queen ''3'') = ?b1((1, 4) := Some e7Queen)"
    unfolding board_handlePromotion b1 c1
    by (simp add: e7Queen_def newPiece_def colorName_def typeName_def)
  have c2: "cell (?b1((1, 4) := Some e7Queen)) 6 6 = Some (newPiece Pawn White 6 6)"
    using initial_cells(2) by (simp add: cell_def onBoard_def simulateMove_def knightBoard_def)
  have b3: "board (handlePromotion (handlePromotion ?g1 1 4 Queen ''3'') 6 6 King ''1'') =
      (?b1((1, 4) := Some e7Queen))((6, 6) := Some promotedKing)"
    unfolding board_handlePromotion[of _ 6 6] b2 c2
    by (simp add: promotedKing_def newPiece_def colorName_def typeName_def)
  have c3: "cell ((?b1((1, 4) := Some e7Queen))((6, 6) := Some promotedKing)) 6 7 =
      Some (newPiece Pawn White 6 7)"
    using initial_cells(3) by (simp add: cell_def onBoard_def simulateMove_def knightBoard_def)
  show ?thesis
    unfolding twoKingGame_def board_handlePromotion[of _ 6 7] b3 c3 twoKingBoard_def
    by (simp add: promotedRook_def newPiece_def colorName_def typeName_def)
qed

lemma twoKingBoard_facts:
  "isValidCastling twoKingBoard promotedKing 6 6 (6 + 2)"
  "isKingInCheck (simulateMove twoKingBoard 6 6 6 (6 + 2) promotedKing) (color promotedKing)"
  "\<not> isKingInCheck twoKingBoard White"
  by code_simp+

section \<open>The claims\<close>

text \<open>
  C1. The status test of \<^verbatim>\<open>handleMove\<close> rejects exactly when the status is not
  \<^verbatim>\<open>playing\<close>. A session in status \<^verbatim>\<open>check\<close> is therefore rejected like a finished
  or a waiting one: the claim that check passes the test fails on the code.
\<close>

theorem handleMove_status_gate:
  "(fst (handleMove game m) = GameNotPlaying) = (status game \<noteq> Playing)"
  unfolding handleMove_def by (auto split: option.splits)

text \<open>
  The rook check on a1: the server itself sets the status \<^verbatim>\<open>check\<close>, and then turns
  down the king's step to e2, a move its own legality engine accepts.
\<close>

theorem handleMove_status_gate_witness:
  "status (snd (handleMove rookGame rookMove)) = Check \<and>
   isValidMove (board (snd (handleMove rookGame rookMove))) (mpiece kingReply)
     (from_row kingReply) (from_col kingReply) (to_row kingReply) (to_col kingReply) \<and>
   fst (handleMove (snd (handleMove rookGame rookMove)) kingReply) = GameNotPlaying"
proof -
  have "status (snd (handleMove rookGame rookMove)) \<noteq> Playing"
    by (simp add: rookMove_status)
  then have "fst (handleMove (snd (handleMove rookGame rookMove)) kingReply) = GameNotPlaying"
    using handleMove_status_gate[of "snd (handleMove rookGame rookMove)" kingReply] by simp
  moreover have "board (snd (handleMove rookGame rookMove)) = checkBoard"
    by (simp add: rookMove_result rookMove_board)
  ultimately show ?thesis using rookMove_status kingReply_valid by simp
qed

text \<open>
  C2. After every accepted move the half-move clock is 0, whatever piece moved and whether
  or not it captured: the test for a capture reads the destination after the piece has been
  written there. The clock is never incremented, so the claim fails on the code.
\<close>

theorem handleMove_clock_always_reset:
  "fst (handleMove game m) = Accepted \<Longrightarrow> halfMoveClock (snd (handleMove game m)) = 0"
proof -
  assume acc: "fst (handleMove game m) = Accepted"
  then have v: "isValidMove (board game) (mpiece m) (from_row m) (from_col m)
                  (to_row m) (to_col m)"
    by (simp add: handleMove_accepted_iff)
  from handleMove_accepted_result[OF acc] obtain game1 piece
    where "snd (handleMove game m) = applyMove game1 m piece" by blast
  with isValidMove_dest[OF v] show ?thesis by (simp add: halfMoveClock_applyMove)
qed

text \<open>The rook move a2-a1: no pawn, no capture, the clock at 7 before and at 0 after.\<close>

theorem handleMove_clock_always_reset_witness:
  "halfMoveClock rookGame = 7 \<and> ptype (mpiece rookMove) = Rook \<and>
   cell (board rookGame) (to_row rookMove) (to_col rookMove) = None \<and>
   halfMoveClock (snd (handleMove rookGame rookMove)) = 0"
proof -
  have a: "fst (handleMove rookGame rookMove) = Accepted" by (simp add: rookMove_result)
  have "cell (board rookGame) (to_row rookMove) (to_col rookMove) = None" by code_simp
  moreover have "halfMoveClock rookGame = 7 \<and> ptype (mpiece rookMove) = Rook"
    by (simp add: rookGame_def sessionOn_def rookMove_def request_def blackRook_def pieceAt_def)
  ultimately show ?thesis using handleMove_clock_always_reset[OF a] by simp
qed

text \<open>
  C3. A pawn move to another column onto an empty square is never accepted, whatever the
  last move was: the legality engine knows no en passant, and \<^verbatim>\<open>handleMove\<close> has no
  other way to accept. The en passant branch of \<^verbatim>\<open>handleMove\<close> is never reached. The
  claim that an accepted en passant capture exists fails on the code.
\<close>

theorem handleMove_rejects_empty_diagonal:
  "ptype (mpiece m) = Pawn \<Longrightarrow> to_col m \<noteq> from_col m \<Longrightarrow>
   cell (board game) (to_row m) (to_col m) = None \<Longrightarrow>
   fst (handleMove game m) \<noteq> Accepted"
  by (simp add: handleMove_accepted_iff isValidMove_empty_diagonal)

text \<open>
  After d7-d5 (the last move recorded by the server) the capture e5xd6 is turned down as
  an invalid move.
\<close>

theorem handleMove_rejects_empty_diagonal_witness:
  "fst (handleMove epGame epAdvance) = Accepted \<and>
   map_option lmFrom (lastMove (snd (handleMove epGame epAdvance))) = Some (1, 3) \<and>
   map_option lmTo (lastMove (snd (handleMove epGame epAdvance))) = Some (3, 3) \<and>
   map_option ptype (cell (board (snd (handleMove epGame epAdvance))) 3 3) = Some Pawn \<and>
   map_option color (cell (board (snd (handleMove epGame epAdvance))) 3 3) = Some Black \<and>
   fst (handleMove (snd (handleMove epGame epAdvance)) epCapture) \<noteq> Accepted \<and>
   fst (handleMove (snd (handleMove epGame epAdvance)) epCapture) = InvalidMove"
proof -
  let ?g = "snd (handleMove epGame epAdvance)"
  have g: "?g = applyMove epGame epAdvance blackPawn" by (simp add: epAdvance_result)
  have b: "board ?g = epBoardAfter" by (simp add: g epAdvance_board)
  have m: "ptype (mpiece epCapture) = Pawn" "to_col epCapture \<noteq> from_col epCapture"
    "to_row epCapture = 2" "to_col epCapture = 3" "from_row epCapture = 3"
    "from_col epCapture = 4" "mpiece epCapture = whitePawn" "color whitePawn = White"
    by (simp_all add: epCapture_def request_def whitePawn_def pieceAt_def)
  have e: "cell (board ?g) (to_row epCapture) (to_col epCapture) = None"
    by (simp add: b m epBoardAfter_facts)
  have n: "fst (handleMove ?g epCapture) \<noteq> Accepted"
    by (rule handleMove_rejects_empty_diagonal[OF m(1) m(2) e])
  have t: "currentTurn ?g = White"
    unfolding g currentTurn_applyMove by (simp add: epGame_def sessionOn_def)
  have "handleMove ?g epCapture = (InvalidMove, ?g)"
  proof (rule handleMove_invalid[where actualPiece = whitePawn])
    show "status ?g = Playing" by (simp add: g epAdvance_status)
    show "color (mpiece epCapture) = currentTurn ?g" by (simp add: t m)
    show "cell (board ?g) (from_row epCapture) (from_col epCapture) = Some whitePawn"
      by (simp add: b m epBoardAfter_facts)
    show "pid whitePawn = pid (mpiece epCapture)" by (simp add: m)
    show "\<not> isValidMove (board ?g) (mpiece epCapture) (from_row epCapture)
             (from_col epCapture) (to_row epCapture) (to_col epCapture)"
      by (rule isValidMove_empty_diagonal[OF m(1) m(2) e])
    show "0 \<le> to_row epCapture" "to_row epCapture \<le> 7" by (simp_all add: m)
  qed
  moreover have "lastMove ?g =
      Some \<lparr>lmFrom = (1, 3), lmTo = (3, 3),
            lmPiece = blackPawn\<lparr>prow := 3, pcol := 3, hasMoved := True\<rparr>,
            lmPlayerId = ''p1'', lmTimestamp = ''0'', lmPromotion = None,
            isCastle = None, isEnPassant = None\<rparr>"
    unfolding g lastMove_applyMove
    by (simp add: epAdvance_def request_def blackPawn_def pieceAt_def)
  ultimately show ?thesis
    using n epBoardAfter_facts by (simp add: epAdvance_result epAdvance_board)
qed

text \<open>
  C4. The status is recomputed after every accepted move, but not for the new side to move:
  the stalemate branch of \<^verbatim>\<open>updateGameStatus\<close> asks whether either side is
  stalemated, without the test on \<^verbatim>\<open>currentTurn\<close> that the check branch next to it
  has. Whenever an accepted move leaves some side stalemated and nobody checkmated, be it the
  side that has just moved, the session becomes \<^verbatim>\<open>stalemate\<close> with no winner, and every
  later move is turned down. The claim fails on the code.
\<close>

theorem handleMove_stalemate_either_side:
  "fst (handleMove game m) = Accepted \<Longrightarrow>
   isStalemate (board (snd (handleMove game m))) k \<Longrightarrow>
   \<not> isCheckmate (board (snd (handleMove game m))) White \<Longrightarrow>
   \<not> isCheckmate (board (snd (handleMove game m))) Black \<Longrightarrow>
   status (snd (handleMove game m)) = Stalemate \<and>
   winner (snd (handleMove game m)) = None \<and>
   handleMove (snd (handleMove game m)) m' = (GameNotPlaying, snd (handleMove game m))"
proof -
  assume acc: "fst (handleMove game m) = Accepted"
    and st: "isStalemate (board (snd (handleMove game m))) k"
    and nw: "\<not> isCheckmate (board (snd (handleMove game m))) White"
    and nb: "\<not> isCheckmate (board (snd (handleMove game m))) Black"
  from acc have v: "isValidMove (board game) (mpiece m) (from_row m) (from_col m)
                      (to_row m) (to_col m)"
    by (simp add: handleMove_accepted_iff)
  from handleMove_accepted_result[OF acc] obtain game1 piece
    where g: "snd (handleMove game m) = applyMove game1 m piece" by blast
  let ?g = "applyMove game1 m piece"
  have clock: "halfMoveClock ?g = 0"
    using isValidMove_dest[OF v] by (simp add: halfMoveClock_applyMove)
  have either: "isStalemate (board ?g) White \<or> isStalemate (board ?g) Black"
    using st g by (cases k) simp_all
  have s: "status ?g = Stalemate"
    using status_applyMove[of game1 m piece] status_updateGameStatus[of ?g]
      clock either nw nb g
    by simp
  have w: "winner ?g = None"
    using winner_applyMove[of game1 m piece] winner_updateGameStatus[of ?g]
      either nw nb g
    by simp
  have "handleMove ?g m' = (GameNotPlaying, ?g)"
    by (rule handleMove_not_playing) (simp add: s)
  with s w g show ?thesis by simp
qed

text \<open>
  After h2-h3 in the position \<open>staleBoard\<close> it is Black's move; Black is neither mated
  nor stalemated nor in check, and the queen's move b3-b2 is legal on the board. The status is
  \<^verbatim>\<open>stalemate\<close>, because White, who has just moved, has no move left, and the queen's
  move is turned down.
\<close>

theorem handleMove_stalemate_either_side_witness:
  "fst (handleMove staleGame staleMove) = Accepted \<and>
   currentTurn (snd (handleMove staleGame staleMove)) = Black \<and>
   \<not> isCheckmate (board (snd (handleMove staleGame staleMove))) Black \<and>
   \<not> isStalemate (board (snd (handleMove staleGame staleMove))) Black \<and>
   \<not> isKingInCheck (board (snd (handleMove staleGame staleMove))) Black \<and>
   isValidMove (board (snd (handleMove staleGame staleMove))) (mpiece queenReply)
     (from_row queenReply) (from_col queenReply) (to_row queenReply) (to_col queenReply) \<and>
   status (snd (handleMove staleGame staleMove)) = Stalemate \<and>
   winner (snd (handleMove staleGame staleMove)) = None \<and>
   fst (handleMove (snd (handleMove staleGame staleMove)) queenReply) = GameNotPlaying"
proof -
  have a: "fst (handleMove staleGame staleMove) = Accepted" by (simp add: staleMove_result)
  have b: "board (snd (handleMove staleGame staleMove)) = staleBoardAfter"
    by (simp add: staleMove_result staleMove_board)
  have t: "currentTurn (snd (handleMove staleGame staleMove)) = Black"
    unfolding staleMove_result snd_conv currentTurn_applyMove
    by (simp add: staleGame_def sessionOn_def)
  have m: "\<not> isCheckmate staleBoardAfter White" "\<not> isCheckmate staleBoardAfter Black"
    using staleBoardAfter_facts by (simp_all add: isCheckmate_def)
  have "status (snd (handleMove staleGame staleMove)) = Stalemate \<and>
        winner (snd (handleMove staleGame staleMove)) = None \<and>
        handleMove (snd (handleMove staleGame staleMove)) queenReply =
          (GameNotPlaying, snd (handleMove staleGame staleMove))"
    using handleMove_stalemate_either_side[of staleGame staleMove White queenReply]
      a b m staleBoardAfter_facts
    by simp
  then show ?thesis
    using a b t m staleBoardAfter_facts queenReply_valid by simp
qed

text \<open>
  C5. The enumerator and the engine agree for every piece but the king
  (\<open>getValidMoves_other_pieces\<close>), and for a king that is the only king of its colour
  and has either moved or stands on the e-file (\<open>getValidMoves_king_eq\<close>). They part
  on the castling of a king that has not moved and stands elsewhere: the enumerator adds the
  square two columns away whenever the castling predicate holds, without the engine's test
  that the destination is on the board. For such a king next to a rook of its own that has
  not moved either, the enumerator returns a square outside the board, which the engine
  rejects. The server produces such kings (\<open>handlePromotion\<close> turns any pawn into any
  piece where it stands), so the claimed equality fails on the code.
\<close>

theorem getValidMoves_castling_off_board:
  "ptype king = King \<Longrightarrow> \<not> hasMoved king \<Longrightarrow> isValidCastling b king r c (c + 2) \<Longrightarrow>
   7 < c + 2 \<Longrightarrow>
   (r, c + 2) \<in> set (getValidMoves b king r c) \<and> \<not> isValidMove b king r c r (c + 2)"
  using castling_enumerated[of king b r c] unfolding isValidMove_def by simp

text \<open>
  The game \<open>promoGame\<close>, after the two messages \<^verbatim>\<open>promotion\<close> for g2 (king) and
  h2 (rook): for the king on g2 the enumerator returns the square (6, 8), which the engine
  rejects.
\<close>

theorem getValidMoves_castling_off_board_witness:
  "board promoGame (6, 6) = Some promotedKing \<and>
   (6, 8) \<in> set (getValidMoves (board promoGame) promotedKing 6 6) \<and>
   \<not> isValidMove (board promoGame) promotedKing 6 6 6 8"
proof -
  have "ptype promotedKing = King" "\<not> hasMoved promotedKing"
    by (simp_all add: promotedKing_def newPiece_def)
  moreover have "promoBoard (6, 6) = Some promotedKing" by (simp add: promoBoard_def)
  ultimately show ?thesis
    using getValidMoves_castling_off_board[of promotedKing promoBoard 6 6] promoBoard_castling
    by (simp add: promoGame_board)
qed

text \<open>
  C6. Every destination enumerated for a piece other than the king leaves the mover's king
  unattacked (\<open>getValidMoves_other_pieces_safe\<close>), and so does every destination of a
  king that is the only king of its colour and has either moved or stands on the e-file
  (\<open>getValidMoves_king_safe\<close>). The castling destinations are enumerated without the
  simulation the engine runs: whenever the castling predicate holds and the king of the
  colour is in check on the board after the move, the enumerator still returns the
  destination. On a board the server produces this happens, so the claim fails on the code.
\<close>

theorem getValidMoves_castling_unsimulated:
  "ptype king = King \<Longrightarrow> \<not> hasMoved king \<Longrightarrow> isValidCastling b king r c (c + 2) \<Longrightarrow>
   isKingInCheck (simulateMove b r c r (c + 2) king) (color king) \<Longrightarrow>
   \<exists>d \<in> set (getValidMoves b king r c).
      isKingInCheck (simulateMove b r c (fst d) (snd d) king) (color king)"
  using castling_enumerated[of king b r c] by force

text \<open>
  The game \<open>twoKingGame\<close>: the knight move is accepted; afterwards the king the scan
  finds first is the promoted one on g2, which is not attacked; once it has left the scanned
  squares the king found is e1, which the queen on e7 attacks.
\<close>

theorem getValidMoves_castling_unsimulated_witness:
  "fst (handleMove knightGame knightMove) = Accepted \<and>
   board twoKingGame (6, 6) = Some promotedKing \<and>
   \<not> isKingInCheck (board twoKingGame) White \<and>
   (\<exists>d \<in> set (getValidMoves (board twoKingGame) promotedKing 6 6).
      isKingInCheck (simulateMove (board twoKingGame) 6 6 (fst d) (snd d) promotedKing)
        (color promotedKing))"
proof -
  have "ptype promotedKing = King" "\<not> hasMoved promotedKing"
    by (simp_all add: promotedKing_def newPiece_def)
  moreover have "twoKingBoard (6, 6) = Some promotedKing" by (simp add: twoKingBoard_def)
  ultimately show ?thesis
    using getValidMoves_castling_unsimulated[of promotedKing twoKingBoard 6 6]
      twoKingBoard_facts
    by (simp add: twoKingGame_board knightMove_result)
qed

text \<open>
  C7. For a king on the board, a move of two columns along its row passes the king's move
  predicate exactly when the five conditions hold together: the king has not moved, its
  side is not in check, a rook of its colour that has not moved stands in column 7 or 0 of
  the king's row on the side of the move (the corner, for a king on its back rank), every
  square strictly between king and rook is empty, and none of the three squares from the
  king's to the destination is in the opponent's attack map. When the king is the only king
  of its colour and the destination lies in columns 1 to 6, the legality engine accepts the
  move exactly when that predicate does: its own tests (destination on the board and not
  held by a friend, king not attacked after the move) then follow from the five conditions.
\<close>

theorem castling_iff_preconditions:
  assumes "\<bar>toCol - fromCol\<bar> = 2" and "onBoard fromRow fromCol"
  shows "(isValidKingMove b king fromRow fromCol fromRow toCol \<longleftrightarrow>
     \<not> hasMoved king \<and>
     \<not> isKingInCheck b (color king) \<and>
     (\<exists>rook. cell b fromRow (if toCol > fromCol then 7 else 0) = Some rook \<and>
        ptype rook = Rook \<and> color rook = color king \<and> \<not> hasMoved rook) \<and>
     (\<forall>c. min fromCol (if toCol > fromCol then 7 else 0) < c \<and>
          c < max fromCol (if toCol > fromCol then 7 else 0) \<longrightarrow> b (fromRow, c) = None) \<and>
     (\<forall>c \<in> {fromCol, (fromCol + toCol) div 2, toCol}.
          \<not> attackedAt (getAttackedSquares b (color king)) fromRow c)) \<and>
   (ptype king = King \<and> 0 < toCol \<and> toCol < 7 \<and>
    (\<forall>kr kc. onBoard kr kc \<and> isKingOf (color king) (b (kr, kc)) \<longrightarrow>
       (kr, kc) = (fromRow, fromCol)) \<longrightarrow>
    (isValidMove b king fromRow fromCol fromRow toCol \<longleftrightarrow>
     isValidKingMove b king fromRow fromCol fromRow toCol))"
proof -
  have k: "isValidKingMove b king fromRow fromCol fromRow toCol \<longleftrightarrow>
     \<not> hasMoved king \<and> isValidCastling b king fromRow fromCol toCol"
    using assms(1) unfolding isValidKingMove_def Let_def by simp
  have r: "(if toCol > fromCol then 7 else 0) = (0::int) \<or>
           (if toCol > fromCol then 7 else 0) = (7::int)"
    by simp
  have t: "\<not> list_ex (\<lambda>c. attackedAt (getAttackedSquares b (color king)) fromRow c)
         (transitCols fromCol toCol) \<and>
     \<not> attackedAt (getAttackedSquares b (color king)) fromRow toCol \<longleftrightarrow>
     (\<forall>c \<in> {fromCol, (fromCol + toCol) div 2, toCol}.
          \<not> attackedAt (getAttackedSquares b (color king)) fromRow c)"
    unfolding list_ex_iff transitCols_two[OF assms(1)] by blast
  have p: "isValidKingMove b king fromRow fromCol fromRow toCol \<longleftrightarrow>
     \<not> hasMoved king \<and>
     \<not> isKingInCheck b (color king) \<and>
     (\<exists>rook. cell b fromRow (if toCol > fromCol then 7 else 0) = Some rook \<and>
        ptype rook = Rook \<and> color rook = color king \<and> \<not> hasMoved rook) \<and>
     (\<forall>c. min fromCol (if toCol > fromCol then 7 else 0) < c \<and>
          c < max fromCol (if toCol > fromCol then 7 else 0) \<longrightarrow> b (fromRow, c) = None) \<and>
     (\<forall>c \<in> {fromCol, (fromCol + toCol) div 2, toCol}.
          \<not> attackedAt (getAttackedSquares b (color king)) fromRow c)"
    unfolding k isValidCastling_iff between_empty_iff[OF assms(2) r] using t by blast
  have e: "ptype king = King \<and> 0 < toCol \<and> toCol < 7 \<and>
    (\<forall>kr kc. onBoard kr kc \<and> isKingOf (color king) (b (kr, kc)) \<longrightarrow>
       (kr, kc) = (fromRow, fromCol)) \<longrightarrow>
    (isValidMove b king fromRow fromCol fromRow toCol \<longleftrightarrow>
     isValidKingMove b king fromRow fromCol fromRow toCol)"
    using castling_engine_iff[where king = king and r = fromRow and c = fromCol
        and tc = toCol and b = b] assms
    by blast
  from p e show ?thesis by blast
qed

text \<open>
  White castles short with king e1 and rook h1: the five conditions, one by one, and the
  engine's verdict.
\<close>

theorem castling_iff_preconditions_witness:
  "isValidKingMove castleBoard castleKing 7 4 7 6 \<and> isValidMove castleBoard castleKing 7 4 7 6"
proof -
  have a: "\<bar>6 - 4\<bar> = (2::int)" "onBoard 7 4" by (simp_all add: onBoard_def)
  have c1: "\<not> hasMoved castleKing" by (simp add: castleKing_def pieceAt_def)
  have c2: "\<not> isKingInCheck castleBoard (color castleKing)" by code_simp
  have c3: "\<exists>rook. cell castleBoard 7 (if (6::int) > 4 then 7 else 0) = Some rook \<and>
        ptype rook = Rook \<and> color rook = color castleKing \<and> \<not> hasMoved rook"
    by (simp add: castleBoard_def place_def cell_def onBoard_def castleKing_def pieceAt_def)
  have c4: "\<forall>c. min 4 (if (6::int) > 4 then 7 else 0) < c \<and>
          c < max 4 (if (6::int) > 4 then 7 else 0) \<longrightarrow> castleBoard (7, c) = None"
    by (simp add: castleBoard_def place_def castleKing_def pieceAt_def)
  have c5: "\<forall>c \<in> {4, (4 + 6) div 2, 6}.
          \<not> attackedAt (getAttackedSquares castleBoard (color castleKing)) 7 c"
    by code_simp
  have u: "ptype castleKing = King \<and> (0::int) < 6 \<and> (6::int) < 7 \<and>
    (\<forall>kr kc. onBoard kr kc \<and> isKingOf (color castleKing) (castleBoard (kr, kc)) \<longrightarrow>
       (kr, kc) = (7, 4))"
    by (simp add: castleBoard_def place_def castleKing_def pieceAt_def isKingOf_def)
  from castling_iff_preconditions[OF a, of castleBoard castleKing] c1 c2 c3 c4 c5 u
  show ?thesis by blast
qed

text \<open>
  C8. A request that \<^verbatim>\<open>handleMove\<close> does not accept leaves the session as it was, and
  the same request on the resulting session gets the same answer.
\<close>

theorem handleMove_rejection_keeps_state:
  "fst (handleMove game m) \<noteq> Accepted \<Longrightarrow>
     snd (handleMove game m) = game \<and>
     handleMove (snd (handleMove game m)) m = handleMove game m"
proof -
  assume "fst (handleMove game m) \<noteq> Accepted"
  then have "snd (handleMove game m) = game"
    unfolding handleMove_def by (auto split: option.splits if_splits)
  then show ?thesis by simp
qed

text \<open>The rook on a2 asked to go to b3: an invalid move, the session untouched.\<close>

theorem handleMove_rejection_keeps_state_witness:
  "fst (handleMove rookGame rookSlip) = InvalidMove \<and>
   snd (handleMove rookGame rookSlip) = rookGame \<and>
   handleMove (snd (handleMove rookGame rookSlip)) rookSlip = handleMove rookGame rookSlip"
proof -
  have "fst (handleMove rookGame rookSlip) \<noteq> Accepted" by (simp add: rookSlip_result)
  from handleMove_rejection_keeps_state[OF this] show ?thesis by (simp add: rookSlip_result)
qed

text \<open>
  C9, as claimed: both counters are zero in a new session. On the code the full-move
  number of a new session is 1.
\<close>

theorem createGame_counters_counterexample:
  "fullMoveNumber (createGame ''default-game'') = 1 \<and>
   fullMoveNumber (createGame ''default-game'') \<noteq> 0"
  by (simp add: createGame_def)

text \<open>
  C9, amended: a new session has the standard arrangement (read row by row from Black's
  back rank: rook, knight, bishop, queen, king, bishop, knight, rook, then Black's pawns,
  four empty rows, White's pawns, White's back rank in the same order), every piece not yet
  moved and recording its own square, all four castling rights, half-move clock 0, full-move
  number 1, White to move and status waiting.
\<close>

theorem createGame_initial_state:
  "map (\<lambda>sq. map_option (\<lambda>p. (ptype p, color p, hasMoved p, prow p, pcol p))
                (cell (board (createGame gameId)) (fst sq) (snd sq))) allSquares =
     map (\<lambda>(c, t). Some (t, Black, False, 0, c))
         (zip [0..7] [Rook, Knight, Bishop, Queen, King, Bishop, Knight, Rook]) @
     map (\<lambda>c. Some (Pawn, Black, False, 1, c)) [0..7] @
     replicate 32 None @
     map (\<lambda>c. Some (Pawn, White, False, 6, c)) [0..7] @
     map (\<lambda>(c, t). Some (t, White, False, 7, c))
         (zip [0..7] [Rook, Knight, Bishop, Queen, King, Bishop, Knight, Rook]) \<and>
   castlingRights (createGame gameId) =
     \<lparr>whiteKingside = True, whiteQueenside = True, blackKingside = True, blackQueenside = True\<rparr> \<and>
   halfMoveClock (createGame gameId) = 0 \<and> fullMoveNumber (createGame gameId) = 1 \<and>
   currentTurn (createGame gameId) = White \<and> status (createGame gameId) = Waiting \<and>
   winner (createGame gameId) = None \<and> lastMove (createGame gameId) = None"
proof -
  have "map (\<lambda>sq. map_option (\<lambda>p. (ptype p, color p, hasMoved p, prow p, pcol p))
                (cell createInitialBoard (fst sq) (snd sq))) allSquares =
     map (\<lambda>(c, t). Some (t, Black, False, 0, c))
         (zip [0..7] [Rook, Knight, Bishop, Queen, King, Bishop, Knight, Rook]) @
     map (\<lambda>c. Some (Pawn, Black, False, 1, c)) [0..7] @
     replicate 32 None @
     map (\<lambda>c. Some (Pawn, White, False, 6, c)) [0..7] @
     map (\<lambda>(c, t). Some (t, White, False, 7, c))
         (zip [0..7] [Rook, Knight, Bishop, Queen, King, Bishop, Knight, Rook])"
    by code_simp
  then show ?thesis by (simp add: createGame_def)
qed

theorem createGame_initial_state_witness:
  "map_option (\<lambda>p. (ptype p, color p, hasMoved p, pid p))
     (board (createGame ''default-game'') (7, 4)) = Some (King, White, False, ''white_king_4'') \<and>
   fullMoveNumber (createGame ''default-game'') = 1 \<and>
   status (createGame ''default-game'') = Waiting"
proof -
  have "map_option (\<lambda>p. (ptype p, color p, hasMoved p, pid p)) (createInitialBoard (7, 4)) =
      Some (King, White, False, ''white_king_4'')"
    by code_simp
  then show ?thesis
    using createGame_initial_state[of "''default-game''"] by (simp add: createGame_def)
qed

text \<open>
  C10. On a board with no king of a colour, that colour is never in check and never
  checkmated, and it is stalemated exactly when none of its pieces has a valid move.
\<close>

theorem kingless_never_in_check:
  assumes "\<forall>r c p. onBoard r c \<and> b (r, c) = Some p \<longrightarrow> \<not> (ptype p = King \<and> color p = k)"
  shows "\<not> isKingInCheck b k \<and> \<not> isCheckmate b k \<and>
     (isStalemate b k \<longleftrightarrow>
        (\<forall>r c p. onBoard r c \<and> b (r, c) = Some p \<and> color p = k \<longrightarrow>
                    getValidMoves b p r c = []))"
proof -
  from assms have "\<forall>r c. onBoard r c \<longrightarrow> \<not> isKingOf k (b (r, c))"
    unfolding isKingOf_iff by blast
  then have "findKing b k = None" by (simp add: findKing_None)
  then have n: "\<not> isKingInCheck b k" by (simp add: isKingInCheck_def)
  then have "isStalemate b k \<longleftrightarrow> \<not> hasAnyMove b k" by (simp add: isStalemate_def)
  with n show ?thesis unfolding hasAnyMove_iff isCheckmate_def by auto
qed

text \<open>White without a king, its only pawn blocked: not in check, not mated, stalemated.\<close>

theorem kingless_never_in_check_witness:
  "\<not> isKingInCheck noKingBoard White \<and> \<not> isCheckmate noKingBoard White \<and>
   isStalemate noKingBoard White"
proof -
  have "findKing noKingBoard White = None" by code_simp
  then have "\<forall>r c. onBoard r c \<longrightarrow> \<not> isKingOf White (noKingBoard (r, c))"
    by (simp add: findKing_None)
  then have a: "\<forall>r c p. onBoard r c \<and> noKingBoard (r, c) = Some p \<longrightarrow>
      \<not> (ptype p = King \<and> color p = White)"
    unfolding isKingOf_iff by blast
  have "\<not> hasAnyMove noKingBoard White" by code_simp
  then have "\<forall>r c p. onBoard r c \<and> noKingBoard (r, c) = Some p \<and> color p = White \<longrightarrow>
      getValidMoves noKingBoard p r c = []"
    unfolding hasAnyMove_iff by blast
  with kingless_never_in_check[OF a] show ?thesis by blast
qed

end
